theory Spec2Isabelle
  imports Complex_Main "HOL-Library.AList"
begin

section \<open>Numeric arrays\<close>

text \<open>
  The classifier of \<^verbatim>\<open>DNN_ImageClassifier.py\<close> works on two-dimensional numpy arrays of
  floating-point numbers. An array with at least one row is modelled by the list of its
  rows, its entries by exact real numbers: every statement below is about the arithmetic
  the program rounds, not about the rounding, with one exception: \<^verbatim>\<open>expit\<close> takes the exact
  values 1 and 0 where its float64 computation does. \<^verbatim>\<open>np.log\<close> is \<open>ln\<close>. The label array
  \<^verbatim>\<open>y\<close>, which \<^verbatim>\<open>load_dataset\<close> reshapes to one row, is the list of that row's entries;
  where the program uses it as an array it is \<open>[y]\<close>.

  Elementwise division and \<open>ln\<close> are those of the reals. Inside \<^verbatim>\<open>train\<close> their divisors and
  arguments are \<open>A + \<epsilon>\<close> and \<open>1 - A + \<epsilon>\<close> for an output \<open>A\<close> of the logistic function, hence
  positive; on other arguments numpy gives an infinity or not-a-number, which the arrays
  of the model do not hold. The one quotient whose divisor can vanish on a run, the growth
  rate of the costs, is modelled with those values. An exception loses the object: a
  function returns either the error or its result with the object as it leaves it.
\<close>

type_synonym matrix = "real list list"

datatype error = UnboundLocalError | ZeroDivisionError | ValueError | KeyError | IndexError

definition bindE :: "error + 'a \<Rightarrow> ('a \<Rightarrow> error + 'b) \<Rightarrow> error + 'b" where
  "bindE r f = (case r of Inl e \<Rightarrow> Inl e | Inr v \<Rightarrow> f v)"

definition nrows :: "matrix \<Rightarrow> nat" where
  "nrows M = length M"

definition ncols :: "matrix \<Rightarrow> nat" where
  "ncols M = (case M of [] \<Rightarrow> 0 | r # _ \<Rightarrow> length r)"

text \<open>\<open>mat r c M\<close>: the array \<open>M\<close> has shape \<open>(r, c)\<close>.\<close>

definition mat :: "nat \<Rightarrow> nat \<Rightarrow> matrix \<Rightarrow> bool" where
  "mat r c M \<longleftrightarrow> length M = r \<and> (\<forall>row \<in> set M. length row = c)"

text \<open>An array combined with a Python scalar: the scalar is applied to every entry.\<close>

definition smap :: "(real \<Rightarrow> real) \<Rightarrow> matrix \<Rightarrow> matrix" where
  "smap f M = map (map f) M"

text \<open>\<^verbatim>\<open>M.T\<close>\<close>

definition transpose_T :: "matrix \<Rightarrow> matrix" where
  "transpose_T M = map (\<lambda>j. map (\<lambda>row. row ! j) M) [0..<ncols M]"

text \<open>\<^verbatim>\<open>np.dot(A, B)\<close> raises ValueError unless the columns of \<open>A\<close> are as many as the rows of \<open>B\<close>.\<close>

definition matmul :: "matrix \<Rightarrow> matrix \<Rightarrow> matrix" where
  "matmul A B =
     map (\<lambda>row. map (\<lambda>j. sum_list (map (\<lambda>k. row ! k * B ! k ! j) [0..<nrows B])) [0..<ncols B]) A"

definition dot :: "matrix \<Rightarrow> matrix \<Rightarrow> error + matrix" where
  "dot A B = (if ncols A = nrows B then Inr (matmul A B) else Inl ValueError)"

text \<open>
  Elementwise operations broadcast: two extents are compatible when they are equal or one
  of them is 1, and the extent 1 is stretched by repeating its only index.
\<close>

definition bdim :: "nat \<Rightarrow> nat \<Rightarrow> nat option" where
  "bdim a b = (if a = b then Some a else if a = 1 then Some b else if b = 1 then Some a else None)"

definition bidx :: "nat \<Rightarrow> nat \<Rightarrow> nat" where
  "bidx n i = (if n = 1 then 0 else i)"

definition bcast :: "(real \<Rightarrow> real \<Rightarrow> real) \<Rightarrow> matrix \<Rightarrow> matrix \<Rightarrow> nat \<Rightarrow> nat \<Rightarrow> matrix" where
  "bcast f A B r c =
     map (\<lambda>i. map (\<lambda>j. f (A ! bidx (nrows A) i ! bidx (ncols A) j)
                          (B ! bidx (nrows B) i ! bidx (ncols B) j)) [0..<c]) [0..<r]"

definition broadcast2 :: "(real \<Rightarrow> real \<Rightarrow> real) \<Rightarrow> matrix \<Rightarrow> matrix \<Rightarrow> error + matrix" where
  "broadcast2 f A B =
     (case bdim (nrows A) (nrows B) of
        None \<Rightarrow> Inl ValueError
      | Some r \<Rightarrow>
          (case bdim (ncols A) (ncols B) of
             None \<Rightarrow> Inl ValueError
           | Some c \<Rightarrow> Inr (bcast f A B r c)))"

text \<open>\<^verbatim>\<open>np.sum(M, axis=1, keepdims=True)\<close>\<close>

definition sum_axis1 :: "matrix \<Rightarrow> matrix" where
  "sum_axis1 M = map (\<lambda>row. [sum_list row]) M"

text \<open>\<^verbatim>\<open>1/m\<close> with \<open>m\<close> a Python int: division by zero raises.\<close>

definition py_inv :: "nat \<Rightarrow> error + real" where
  "py_inv m = (if m = 0 then Inl ZeroDivisionError else Inr (1 / real m))"

text \<open>Python list indexing; a negative index counts from the end.\<close>

definition py_index :: "'a list \<Rightarrow> int \<Rightarrow> error + 'a" where
  "py_index xs i =
     (if 0 \<le> i \<and> i < int (length xs) then Inr (xs ! nat i)
      else if i < 0 \<and> - int (length xs) \<le> i then Inr (xs ! nat (int (length xs) + i))
      else Inl IndexError)"

text \<open>
  A quotient of two numpy floats does not raise when the divisor is zero: it is an
  infinity or not-a-number, and a comparison with not-a-number is false.
\<close>

datatype npfloat = Finite real | PosInf | NegInf | NaN

definition np_divide :: "real \<Rightarrow> real \<Rightarrow> npfloat" where
  "np_divide a b =
     (if b \<noteq> 0 then Finite (a / b) else if 0 < a then PosInf else if a < 0 then NegInf else NaN)"

fun np_less :: "npfloat \<Rightarrow> real \<Rightarrow> bool" where
  "np_less (Finite r) t = (r < t)"
| "np_less NegInf t = True"
| "np_less PosInf t = False"
| "np_less NaN t = False"

section \<open>The model object\<close>

text \<open>
  The keys \<^verbatim>\<open>'W'+str(i)\<close>, \<^verbatim>\<open>'b'+str(i)\<close> of \<^verbatim>\<open>self.parameters\<close> and \<^verbatim>\<open>'dW'+str(i)\<close>, \<^verbatim>\<open>'db'+str(i)\<close>
  of \<^verbatim>\<open>grads\<close>. The parameter dictionary is an association list with distinct keys, so
  that \<^verbatim>\<open>len\<close> is its length; an assignment is \<open>AList.update\<close>.
\<close>

datatype pkey = W nat | B nat

datatype gkey = DW nat | DB nat

type_synonym params = "(pkey \<times> matrix) list"

type_synonym grads = "gkey \<rightharpoonup> matrix"

text \<open>A cache entry: the dictionary \<^verbatim>\<open>{'A': A}\<close> or \<^verbatim>\<open>{'A': A, 'Z': Z}\<close>.\<close>

datatype cache_rec = Rec (rec_A: matrix) (rec_Z: "matrix option")

record model =
  learning_rate :: real
  num_iters :: int
  layers :: "nat list"
  cache :: "cache_rec list"
  parameters :: params
  growth_rate :: "npfloat option"
  J_hist :: "real list"

definition getp :: "params \<Rightarrow> pkey \<Rightarrow> error + matrix" where
  "getp ps k = (case map_of ps k of None \<Rightarrow> Inl KeyError | Some v \<Rightarrow> Inr v)"

definition getg :: "grads \<Rightarrow> gkey \<Rightarrow> error + matrix" where
  "getg g k = (case g k of None \<Rightarrow> Inl KeyError | Some v \<Rightarrow> Inr v)"

definition get_Z :: "cache_rec \<Rightarrow> error + matrix" where
  "get_Z r = (case rec_Z r of None \<Rightarrow> Inl KeyError | Some Z \<Rightarrow> Inr Z)"

definition epsilon :: real where
  "epsilon = 1 / 100000"

subsection \<open>Helper functions\<close>

text \<open>
  \<^verbatim>\<open>scipy.special.expit\<close> on float64 computes \<open>1 / (1 + exp (- z))\<close>. Where \<open>exp (- z)\<close> is at
  most \<open>2\<^sup>-\<^sup>5\<^sup>3\<close> the sum \<open>1 + exp (- z)\<close> rounds to 1 and the result is exactly 1; where
  \<open>exp (- z)\<close> reaches \<open>2\<^sup>1\<^sup>0\<^sup>2\<^sup>4\<close> it overflows to infinity and the result is exactly 0. Between
  the two, the value is the logistic function's, its rounding left out.
\<close>

definition expit :: "real \<Rightarrow> real" where
  "expit z =
     (if exp (- z) \<le> 1 / 2 ^ 53 then 1
      else if 2 ^ 1024 \<le> exp (- z) then 0
      else 1 / (1 + exp (- z)))"

definition sigmoid :: "matrix \<Rightarrow> matrix" where
  "sigmoid Z = smap expit Z"

definition dsigmoid :: "matrix \<Rightarrow> matrix" where
  "dsigmoid Z = smap (\<lambda>sig. sig * (1 - sig)) (sigmoid Z)"

definition relu :: "matrix \<Rightarrow> matrix" where
  "relu Z = smap (max 0) Z"

text \<open>\<^verbatim>\<open>np.heaviside(x, h0)\<close> is 0 below zero, \<open>h0\<close> at zero and 1 above.\<close>

definition heaviside :: "real \<Rightarrow> real \<Rightarrow> real" where
  "heaviside x h0 = (if x < 0 then 0 else if x = 0 then h0 else 1)"

definition drelu :: "matrix \<Rightarrow> matrix" where
  "drelu Z = smap (\<lambda>z. heaviside z 0) Z"

subsection \<open>Construction\<close>

text \<open>
  \<^verbatim>\<open>np.random.randn(r, c)\<close> draws an \<open>r \<times> c\<close> array from the generator. The draws are a
  parameter: \<open>rnd i j k\<close> is the sample at row \<open>j\<close>, column \<open>k\<close> of the array drawn for layer \<open>i\<close>.
\<close>

definition randn :: "(nat \<Rightarrow> nat \<Rightarrow> real) \<Rightarrow> nat \<Rightarrow> nat \<Rightarrow> matrix" where
  "randn smp r c = map (\<lambda>j. map (\<lambda>k. smp j k) [0..<c]) [0..<r]"

definition zeros :: "nat \<Rightarrow> nat \<Rightarrow> matrix" where
  "zeros r c = replicate r (replicate c 0)"

fun init_loop :: "nat list \<Rightarrow> (nat \<Rightarrow> nat \<Rightarrow> nat \<Rightarrow> real) \<Rightarrow> nat list \<Rightarrow> params \<Rightarrow> params" where
  "init_loop ls rnd [] ps = ps"
| "init_loop ls rnd (i # is) ps =
     init_loop ls rnd is
       (AList.update (B i) (zeros (ls ! i) 1)
          (AList.update (W i) (smap (\<lambda>x. x * (1 / 10)) (randn (rnd i) (ls ! i) (ls ! (i - 1)))) ps))"

definition initialize_parameters :: "(nat \<Rightarrow> nat \<Rightarrow> nat \<Rightarrow> real) \<Rightarrow> model \<Rightarrow> model" where
  "initialize_parameters rnd st =
     st\<lparr>parameters := init_loop (layers st) rnd [1..<length (layers st)] (parameters st)\<rparr>"

text \<open>\<^verbatim>\<open>Model.__init__\<close>, given the three entries of its \<^verbatim>\<open>parameters\<close> dictionary.\<close>

definition Model :: "real \<Rightarrow> int \<Rightarrow> nat list \<Rightarrow> (nat \<Rightarrow> nat \<Rightarrow> nat \<Rightarrow> real) \<Rightarrow> model" where
  "Model lr n ls rnd =
     (initialize_parameters rnd
        \<lparr>learning_rate = lr, num_iters = n, layers = ls, cache = [], parameters = [],
         growth_rate = None, J_hist = []\<rparr>)
     \<lparr>growth_rate := None, J_hist := []\<rparr>"

subsection \<open>Forward pass\<close>

text \<open>The loop over the hidden layers: the running activation and the cache are threaded.\<close>

fun ff_loop :: "params \<Rightarrow> nat list \<Rightarrow> matrix \<Rightarrow> cache_rec list \<Rightarrow> error + (matrix \<times> cache_rec list)" where
  "ff_loop ps [] A c = Inr (A, c)"
| "ff_loop ps (i # is) A c =
     bindE (getp ps (W i)) (\<lambda>Wi.
     bindE (dot Wi A) (\<lambda>D.
     bindE (getp ps (B i)) (\<lambda>bi.
     bindE (broadcast2 (+) D bi) (\<lambda>Z.
       ff_loop ps is (relu Z) (c @ [Rec (relu Z) (Some Z)])))))"

definition feed_forward :: "model \<Rightarrow> matrix \<Rightarrow> error + (matrix \<times> model)" where
  "feed_forward st X =
     (let c0 = (if length (cache st) = 0 then cache st @ [Rec X None] else take 1 (cache st));
          L = length (parameters st) div 2
      in bindE (ff_loop (parameters st) [1..<L] X c0) (\<lambda>(A, c1).
         bindE (getp (parameters st) (W L)) (\<lambda>WL.
         bindE (dot WL A) (\<lambda>D.
         bindE (getp (parameters st) (B L)) (\<lambda>bL.
         bindE (broadcast2 (+) D bL) (\<lambda>Z_output.
           Inr (sigmoid Z_output,
                st\<lparr>cache := c1 @ [Rec (sigmoid Z_output) (Some Z_output)]\<rparr>)))))))"

subsection \<open>Cost\<close>

text \<open>
  \<open>[y]\<close> has one row, so \<^verbatim>\<open>error\<close> has one row and \<^verbatim>\<open>cost\<close> one entry, which \<^verbatim>\<open>np.squeeze\<close>
  returns as a scalar; the last branch is never taken.
\<close>

definition computeCost :: "real list \<Rightarrow> matrix \<Rightarrow> error + real" where
  "computeCost y predictions =
     (let m = length y in
      bindE (dot [y] (transpose_T (smap (\<lambda>p. ln (p + epsilon)) predictions))) (\<lambda>d1.
      bindE (dot [map (\<lambda>t. 1 - t) y] (transpose_T (smap (\<lambda>p. ln (1 - p + epsilon)) predictions))) (\<lambda>d2.
      bindE (broadcast2 (+) d1 d2) (\<lambda>s.
      let err = smap uminus s in
      bindE (py_inv m) (\<lambda>inv_m.
      case map (\<lambda>row. inv_m * sum_list row) err of
        [cost] \<Rightarrow> Inr cost
      | _ \<Rightarrow> Inl ValueError)))))"

subsection \<open>Backward pass\<close>

text \<open>Lines 122 and 123: the gradient at the output layer from the last cache entry.\<close>

definition output_dZ :: "real list \<Rightarrow> cache_rec \<Rightarrow> error + matrix" where
  "output_dZ y last_rec =
     bindE (broadcast2 (/) [y] (smap (\<lambda>a. a + epsilon) (rec_A last_rec))) (\<lambda>q1.
     bindE (broadcast2 (/) [map (\<lambda>t. 1 - t) y] (smap (\<lambda>a. 1 - a + epsilon) (rec_A last_rec))) (\<lambda>q2.
     bindE (broadcast2 (+) (smap uminus q1) q2) (\<lambda>dA.
     bindE (get_Z last_rec) (\<lambda>Z.
       broadcast2 (*) dA (dsigmoid Z)))))"

fun bp_loop :: "params \<Rightarrow> cache_rec list \<Rightarrow> nat \<Rightarrow> nat list \<Rightarrow> matrix \<Rightarrow> grads \<Rightarrow> error + grads" where
  "bp_loop ps c m [] da_prev g = Inr g"
| "bp_loop ps c m (i # is) da_prev g =
     bindE (py_index c (int i)) (\<lambda>ci.
     bindE (get_Z ci) (\<lambda>Z.
     bindE (broadcast2 (*) da_prev (drelu Z)) (\<lambda>dZ.
     bindE (py_inv m) (\<lambda>inv_m.
     bindE (py_index c (int i - 1)) (\<lambda>cp.
     bindE (dot dZ (transpose_T (rec_A cp))) (\<lambda>D.
     bindE (py_inv m) (\<lambda>inv_m'.
     bindE (getp ps (W i)) (\<lambda>Wi.
     bindE (dot (transpose_T Wi) dZ) (\<lambda>da.
       bp_loop ps c m is da
         (g(DW i \<mapsto> smap ((*) inv_m) D, DB i \<mapsto> smap ((*) inv_m') (sum_axis1 dZ))))))))))))"

definition back_propagate :: "model \<Rightarrow> matrix \<Rightarrow> real list \<Rightarrow> error + grads" where
  "back_propagate st X y =
     (let m = length y; L = length (parameters st) div 2 in
      bindE (py_index (cache st) (- 1)) (\<lambda>last_rec.
      bindE (output_dZ y last_rec) (\<lambda>dZ.
      bindE (py_inv m) (\<lambda>inv_m.
      bindE (py_index (cache st) (- 2)) (\<lambda>prev_rec.
      bindE (dot dZ (transpose_T (rec_A prev_rec))) (\<lambda>D.
      bindE (getp (parameters st) (W L)) (\<lambda>WL.
      bindE (dot (transpose_T WL) dZ) (\<lambda>da_prev.
        bp_loop (parameters st) (cache st) m (rev [1..<L]) da_prev
          [DW L \<mapsto> smap ((*) inv_m) D, DB L \<mapsto> smap ((*) inv_m) (sum_axis1 dZ)]))))))))"

subsection \<open>Training\<close>

text \<open>Lines 151 to 153: the update of every layer's parameters.\<close>

fun update_loop :: "real \<Rightarrow> grads \<Rightarrow> nat list \<Rightarrow> params \<Rightarrow> error + params" where
  "update_loop lr g [] ps = Inr ps"
| "update_loop lr g (j # js) ps =
     bindE (getp ps (W j)) (\<lambda>Wj.
     bindE (getg g (DW j)) (\<lambda>dW.
     bindE (broadcast2 (-) Wj (smap ((*) lr) dW)) (\<lambda>Wj'.
     let ps1 = AList.update (W j) Wj' ps in
     bindE (getp ps1 (B j)) (\<lambda>bj.
     bindE (getg g (DB j)) (\<lambda>db.
     bindE (broadcast2 (-) bj (smap ((*) lr) db)) (\<lambda>bj'.
       update_loop lr g js (AList.update (B j) bj' ps1)))))))"

text \<open>Lines 145 to 155: one iteration up to the recording of its cost.\<close>

definition train_step :: "model \<Rightarrow> matrix \<Rightarrow> real list \<Rightarrow> error + (real \<times> model)" where
  "train_step st X y =
     bindE (feed_forward st X) (\<lambda>(predictions, st1).
     bindE (computeCost y predictions) (\<lambda>cost.
     bindE (back_propagate st1 X y) (\<lambda>g.
     bindE (update_loop (learning_rate st1) g [1..<length (layers st1)] (parameters st1)) (\<lambda>ps.
       Inr (cost, st1\<lparr>parameters := ps, J_hist := J_hist st1 @ [cost]\<rparr>)))))"

text \<open>
  Lines 157 to 163: the growth rate of the recorded costs; the flag says whether the
  loop is left by \<^verbatim>\<open>break\<close>.
\<close>

definition check_growth :: "model \<Rightarrow> bool \<times> model" where
  "check_growth st =
     (let J = J_hist st; n = length J in
      if n > 3 then
        let g = np_divide (J ! (n - 1) - J ! (n - 2)) (J ! (n - 2) - J ! (n - 3) + epsilon)
        in (np_less g (1 / 4), st\<lparr>growth_rate := Some g\<rparr>)
      else (False, st))"

text \<open>
  The loop \<^verbatim>\<open>for i in range(self.num_iters)\<close>, by the number of iterations left. The local
  variable \<^verbatim>\<open>cost\<close> is unbound (\<open>None\<close>) until an iteration assigns it. The index \<open>i\<close> only
  selects the iterations whose cost is printed, and printing is left out.
\<close>

fun train_loop :: "nat \<Rightarrow> matrix \<Rightarrow> real list \<Rightarrow> real option \<Rightarrow> model \<Rightarrow> error + (real option \<times> model)" where
  "train_loop 0 X y cost st = Inr (cost, st)"
| "train_loop (Suc n) X y cost st =
     bindE (train_step st X y) (\<lambda>(c, st1).
       case check_growth st1 of
         (True, st2) \<Rightarrow> Inr (Some c, st2)
       | (False, st2) \<Rightarrow> train_loop n X y (Some c) st2)"

text \<open>
  \<^verbatim>\<open>train\<close> returns nothing; the model gives the final cost it prints and the object as
  it leaves it.
\<close>

definition train :: "model \<Rightarrow> matrix \<Rightarrow> real list \<Rightarrow> error + (real \<times> model)" where
  "train st X y =
     bindE (train_loop (nat (num_iters st)) X y None st) (\<lambda>(cost, st1).
       case cost of
         None \<Rightarrow> Inl UnboundLocalError
       | Some c \<Rightarrow> Inr (c, st1\<lparr>cache := []\<rparr>))"

subsection \<open>Inference\<close>

text \<open>
  \<^verbatim>\<open>X.reshape(64*64*3, 1)\<close> depends on the entries of \<open>X\<close> in row-major order only, so the
  argument \<open>X\<close> is that list, whatever the shape. The local variable \<^verbatim>\<open>X_flatten\<close> is
  assigned only under \<^verbatim>\<open>prepare is True\<close>. The result is the printed prediction and the
  object as the call leaves it.
\<close>

definition reshape_col :: "nat \<Rightarrow> real list \<Rightarrow> error + matrix" where
  "reshape_col n xs = (if length xs = n then Inr (map (\<lambda>x. [x]) xs) else Inl ValueError)"

definition predict :: "model \<Rightarrow> real list \<Rightarrow> bool \<Rightarrow> error + (matrix \<times> model)" where
  "predict st X prepare =
     bindE (if prepare
            then bindE (reshape_col (64 * 64 * 3) X) (\<lambda>X_flatten.
                   Inr (Some (smap (\<lambda>x. x / 255) X_flatten)))
            else Inr None) (\<lambda>X_flatten.
       case X_flatten of
         None \<Rightarrow> Inl UnboundLocalError
       | Some Xf \<Rightarrow> feed_forward st Xf)"

section \<open>Example inputs\<close>

text \<open>A network of one input and one output unit whose single random draw is 1.\<close>

definition unit_model :: model where
  "unit_model = Model (1 / 2000) 2000 [1, 1] (\<lambda>i j k. 1)"

section \<open>The forward pass as the specification words it\<close>

text \<open>
  The stored arrays \<open>W\<^sub>i\<close> and \<open>b\<^sub>i\<close>, and the specification's forward pass entry by entry:
  for a hidden layer \<open>i\<close> the pre-activation is \<open>W\<^sub>i \<cdot> A\<^sub>i\<^sub>-\<^sub>1 + b\<^sub>i\<close>, the bias repeated in every
  sample column, and the activation is \<open>max 0\<close> of it; for the output layer, the last of the
  layer specification \<open>ls\<close>, the activation is the logistic function \<open>1 / (1 + e\<^sup>-\<^sup>z)\<close> as the
  library computes it, \<open>expit\<close>. Layer 0 is the input.
\<close>

definition stored :: "params \<Rightarrow> pkey \<Rightarrow> matrix" where
  "stored ps k = (case map_of ps k of None \<Rightarrow> [] | Some M \<Rightarrow> M)"

fun spec_A :: "nat list \<Rightarrow> params \<Rightarrow> matrix \<Rightarrow> nat \<Rightarrow> nat \<Rightarrow> nat \<Rightarrow> real" where
  "spec_A ls ps X 0 r c = X ! r ! c"
| "spec_A ls ps X (Suc i) r c =
     (if Suc i < length ls - 1
      then max 0 ((\<Sum>k<ls ! i. stored ps (W (Suc i)) ! r ! k * spec_A ls ps X i k c)
                  + stored ps (B (Suc i)) ! r ! 0)
      else expit ((\<Sum>k<ls ! i. stored ps (W (Suc i)) ! r ! k * spec_A ls ps X i k c)
                  + stored ps (B (Suc i)) ! r ! 0))"

definition spec_Z :: "nat list \<Rightarrow> params \<Rightarrow> matrix \<Rightarrow> nat \<Rightarrow> nat \<Rightarrow> nat \<Rightarrow> real" where
  "spec_Z ls ps X i r c =
     (\<Sum>k<ls ! (i - 1). stored ps (W i) ! r ! k * spec_A ls ps X (i - 1) k c) + stored ps (B i) ! r ! 0"

section \<open>Well-formed models\<close>

text \<open>
  A layer specification has at least two entries, all positive. The parameters fit it when
  the dictionary holds, for every layer \<open>i \<ge> 1\<close>, an array \<open>W\<^sub>i\<close> of shape
  \<open>(ls\<^sub>i, ls\<^sub>i\<^sub>-\<^sub>1)\<close> and an array \<open>b\<^sub>i\<close> of shape \<open>(ls\<^sub>i, 1)\<close>, and nothing else.
\<close>

definition wf_layers :: "nat list \<Rightarrow> bool" where
  "wf_layers ls \<longleftrightarrow> 2 \<le> length ls \<and> (\<forall>n \<in> set ls. 0 < n)"

definition layer_params :: "nat list \<Rightarrow> params \<Rightarrow> nat \<Rightarrow> bool" where
  "layer_params ls ps i \<longleftrightarrow>
     (\<exists>Wi bi. map_of ps (W i) = Some Wi \<and> mat (ls ! i) (ls ! (i - 1)) Wi \<and>
              map_of ps (B i) = Some bi \<and> mat (ls ! i) 1 bi)"

definition wf_params :: "nat list \<Rightarrow> params \<Rightarrow> bool" where
  "wf_params ls ps \<longleftrightarrow>
     distinct (map fst ps) \<and> length ps = 2 * (length ls - 1) \<and>
     (\<forall>i. 1 \<le> i \<and> i < length ls \<longrightarrow> layer_params ls ps i)"

text \<open>A cache entry of layer \<open>i \<ge> 1\<close> for \<open>m\<close> samples, and a cache filled by a forward pass.\<close>

definition layer_rec :: "nat list \<Rightarrow> nat \<Rightarrow> nat \<Rightarrow> cache_rec \<Rightarrow> bool" where
  "layer_rec ls m i r \<longleftrightarrow>
     (\<exists>A Z. r = Rec A (Some Z) \<and> mat (ls ! i) m A \<and> mat (ls ! i) m Z)"

definition filled_cache :: "nat list \<Rightarrow> nat \<Rightarrow> cache_rec list \<Rightarrow> bool" where
  "filled_cache ls m c \<longleftrightarrow>
     length c = length ls \<and> mat (ls ! 0) m (rec_A (c ! 0)) \<and>
     (\<forall>i. 1 \<le> i \<and> i < length ls \<longrightarrow> layer_rec ls m i (c ! i))"

text \<open>A cache entry that holds what the specification says of layer \<open>i\<close>.\<close>

definition spec_rec :: "nat list \<Rightarrow> params \<Rightarrow> matrix \<Rightarrow> nat \<Rightarrow> nat \<Rightarrow> cache_rec \<Rightarrow> bool" where
  "spec_rec ls ps X m i r \<longleftrightarrow>
     (\<exists>A Z. r = Rec A (Some Z) \<and> mat (ls ! i) m A \<and> mat (ls ! i) m Z \<and>
        (\<forall>j<ls ! i. \<forall>c<m. Z ! j ! c = spec_Z ls ps X i j c \<and> A ! j ! c = spec_A ls ps X i j c))"

text \<open>A network with one hidden layer, two inputs and every random draw 1, and a batch of three samples.\<close>

definition small_model :: model where
  "small_model = Model (1 / 2000) 2000 [2, 2, 1] (\<lambda>i j k. 1)"

definition small_X :: matrix where
  "small_X = [[1, 2, 3], [4, 5, 6]]"

definition small_y :: "real list" where
  "small_y = [1, 0, 1]"

text \<open>
  Gradients that fit the layer specification: for every layer \<open>i \<ge> 1\<close> an array \<^verbatim>\<open>dW\<close> of the
  shape of \<open>W\<^sub>i\<close> and an array \<^verbatim>\<open>db\<close> of the shape of \<open>b\<^sub>i\<close>.
\<close>

definition layer_grads :: "nat list \<Rightarrow> grads \<Rightarrow> nat \<Rightarrow> bool" where
  "layer_grads ls g i \<longleftrightarrow>
     (\<exists>dW db. g (DW i) = Some dW \<and> mat (ls ! i) (ls ! (i - 1)) dW \<and>
              g (DB i) = Some db \<and> mat (ls ! i) 1 db)"

definition wf_grads :: "nat list \<Rightarrow> grads \<Rightarrow> bool" where
  "wf_grads ls g \<longleftrightarrow> (\<forall>i. 1 \<le> i \<and> i < length ls \<longrightarrow> layer_grads ls g i)"

text \<open>
  Layer \<open>j\<close> of \<open>ps'\<close> is layer \<open>j\<close> of \<open>ps\<close> after one step of gradient descent:
  \<open>W\<^sub>j - lr \<cdot> dW\<^sub>j\<close> and \<open>b\<^sub>j - lr \<cdot> db\<^sub>j\<close>, entry by entry, in the same shapes.
\<close>

definition descended :: "nat list \<Rightarrow> real \<Rightarrow> grads \<Rightarrow> params \<Rightarrow> params \<Rightarrow> nat \<Rightarrow> bool" where
  "descended ls lr g ps ps' j \<longleftrightarrow>
     (\<exists>Wj bj dW db Wj' bj'.
        map_of ps (W j) = Some Wj \<and> map_of ps (B j) = Some bj \<and>
        g (DW j) = Some dW \<and> g (DB j) = Some db \<and>
        map_of ps' (W j) = Some Wj' \<and> map_of ps' (B j) = Some bj' \<and>
        mat (ls ! j) (ls ! (j - 1)) Wj' \<and> mat (ls ! j) 1 bj' \<and>
        (\<forall>r<ls ! j. \<forall>c<ls ! (j - 1). Wj' ! r ! c = Wj ! r ! c - lr * dW ! r ! c) \<and>
        (\<forall>r<ls ! j. bj' ! r ! 0 = bj ! r ! 0 - lr * db ! r ! 0))"

text \<open>
  The state in which an iteration of \<^verbatim>\<open>train\<close> finds the model: parameters that fit the layer
  specification, and a cache that is empty or whose entry 0 has the shape of the input.
\<close>

definition trainable :: "nat \<Rightarrow> model \<Rightarrow> bool" where
  "trainable m st \<longleftrightarrow>
     wf_layers (layers st) \<and> wf_params (layers st) (parameters st) \<and>
     (cache st = [] \<or> mat (layers st ! 0) m (rec_A (cache st ! 0)))"

text \<open>The same network after three iterations that recorded the costs 1.0, 0.5 and 0.49.\<close>

definition warm_model :: model where
  "warm_model = small_model\<lparr>J_hist := [1, 1 / 2, 49 / 100]\<rparr>"

section \<open>Facts about arrays\<close>

lemma bindE_simps [simp]: "bindE (Inl e) f = Inl e" "bindE (Inr v) f = f v"
  by (simp_all add: bindE_def)

lemma mat_nrows: "mat r c M \<Longrightarrow> nrows M = r"
  by (simp add: mat_def nrows_def)

lemma mat_ncols: "mat r c M \<Longrightarrow> 0 < r \<Longrightarrow> ncols M = c"
  by (cases M) (auto simp: mat_def ncols_def)

lemma mat_length: "mat r c M \<Longrightarrow> length M = r"
  by (simp add: mat_def)

lemma mat_row_length: "mat r c M \<Longrightarrow> i < r \<Longrightarrow> length (M ! i) = c"
  by (simp add: mat_def)

lemma mat_smap: "mat r c M \<Longrightarrow> mat r c (smap f M)"
  by (auto simp: mat_def smap_def)

lemma smap_nth: "mat r c M \<Longrightarrow> i < r \<Longrightarrow> j < c \<Longrightarrow> smap f M ! i ! j = f (M ! i ! j)"
  by (simp add: mat_def smap_def)

lemma mat_transpose_T: "mat r c M \<Longrightarrow> 0 < r \<Longrightarrow> mat c r (transpose_T M)"
  by (simp add: mat_ncols transpose_T_def) (simp add: mat_def)

lemma transpose_T_nth:
  "mat r c M \<Longrightarrow> i < r \<Longrightarrow> j < c \<Longrightarrow> transpose_T M ! j ! i = M ! i ! j"
  using mat_ncols [of r c M] by (simp add: transpose_T_def mat_def)

lemma mat_matmul: "mat r k A \<Longrightarrow> mat k c N \<Longrightarrow> 0 < k \<Longrightarrow> mat r c (matmul A N)"
  using mat_ncols [of k c N] by (simp add: matmul_def mat_def)

lemma dot_mat: "mat r k A \<Longrightarrow> mat k c N \<Longrightarrow> 0 < r \<Longrightarrow> dot A N = Inr (matmul A N)"
  by (simp add: dot_def mat_ncols mat_nrows)

lemma matmul_nth:
  "mat r k A \<Longrightarrow> mat k c N \<Longrightarrow> 0 < k \<Longrightarrow> i < r \<Longrightarrow> j < c \<Longrightarrow>
     matmul A N ! i ! j = (\<Sum>l<k. A ! i ! l * N ! l ! j)"
  using mat_ncols [of k c N] mat_nrows [of k c N]
  by (simp add: matmul_def mat_def interv_sum_list_conv_sum_set_nat atLeast0LessThan)

lemma mat_bcast: "mat r c (bcast f A N r c)"
  by (simp add: bcast_def mat_def)

lemma bcast_nth:
  "i < r \<Longrightarrow> j < c \<Longrightarrow>
     bcast f A N r c ! i ! j =
       f (A ! bidx (nrows A) i ! bidx (ncols A) j) (N ! bidx (nrows N) i ! bidx (ncols N) j)"
  by (simp add: bcast_def)

lemma broadcast2_mat:
  "mat ra ca A \<Longrightarrow> mat rb cb N \<Longrightarrow> 0 < ra \<Longrightarrow> 0 < rb \<Longrightarrow>
   bdim ra rb = Some r \<Longrightarrow> bdim ca cb = Some c \<Longrightarrow>
     broadcast2 f A N = Inr (bcast f A N r c)"
  by (simp add: broadcast2_def mat_ncols mat_nrows)

lemma bdim_same [simp]: "bdim a a = Some a"
  by (simp add: bdim_def)

lemma bdim_one_right [simp]: "bdim a (Suc 0) = Some a"
  by (simp add: bdim_def)

lemma bdim_one_left [simp]: "bdim (Suc 0) a = Some a"
  by (auto simp add: bdim_def)

lemma mat_sum_axis1: "mat r c M \<Longrightarrow> mat r 1 (sum_axis1 M)"
  by (simp add: mat_def sum_axis1_def)

lemma mat_zeros: "mat r c (zeros r c)"
  by (simp add: mat_def zeros_def)

lemma mat_randn: "mat r c (randn s r c)"
  by (simp add: mat_def randn_def)

lemma mat_singleton: "mat 1 (length y) [y]"
  by (simp add: mat_def)

lemma mat_1_1: "mat 1 1 M \<Longrightarrow> M = [[M ! 0 ! 0]]"
  by (cases M; cases "hd M") (auto simp: mat_def)

lemma transpose_T_row: "0 < length q \<Longrightarrow> transpose_T [q] = map (\<lambda>j. [q ! j]) [0..<length q]"
  by (simp add: transpose_T_def ncols_def)

lemma dot_row_col:
  assumes "length q = length y" "0 < length y"
  shows "dot [y] (transpose_T [q]) = Inr [[(\<Sum>k<length y. y ! k * q ! k)]]"
proof -
  let ?m = "length y"
  have q: "mat 1 ?m [q]" and y: "mat 1 ?m [y]"
    using assms by (simp_all add: mat_def)
  have t: "mat ?m 1 (transpose_T [q])"
    using mat_transpose_T [OF q] by simp
  have d: "dot [y] (transpose_T [q]) = Inr (matmul [y] (transpose_T [q]))"
    using dot_mat [OF y t] by simp
  have m11: "mat 1 1 (matmul [y] (transpose_T [q]))"
    using mat_matmul [OF y t] assms by simp
  have "matmul [y] (transpose_T [q]) ! 0 ! 0 = (\<Sum>k<?m. [y] ! 0 ! k * transpose_T [q] ! k ! 0)"
    using matmul_nth [OF y t, of 0 0] assms by simp
  also have "\<dots> = (\<Sum>k<?m. y ! k * q ! k)"
    using transpose_T_nth [OF q, of 0] by simp
  finally show ?thesis
    using d mat_1_1 [OF m11] by simp
qed

lemma computeCost_row:
  assumes "length p = length y" "0 < length y"
  shows "computeCost y [p] =
     Inr (- (1 / real (length y)) *
        (\<Sum>j<length y. y ! j * ln (p ! j + epsilon) + (1 - y ! j) * ln (1 - p ! j + epsilon)))"
proof -
  let ?m = "length y"
  let ?l1 = "map (\<lambda>t. ln (t + epsilon)) p"
  let ?l2 = "map (\<lambda>t. ln (1 - t + epsilon)) p"
  have d1: "dot [y] (transpose_T [?l1]) = Inr [[(\<Sum>k<?m. y ! k * ?l1 ! k)]]"
    using dot_row_col [of ?l1 y] assms by simp
  have d2: "dot [map (\<lambda>t. 1 - t) y] (transpose_T [?l2]) =
      Inr [[(\<Sum>k<?m. map (\<lambda>t. 1 - t) y ! k * ?l2 ! k)]]"
    using dot_row_col [of ?l2 "map (\<lambda>t. 1 - t) y"] assms by simp
  have b: "broadcast2 (+) [[a]] [[b]] = Inr [[a + b]]" for a b :: real
    by (simp add: broadcast2_def nrows_def ncols_def bcast_def bidx_def)
  have "computeCost y [p] =
      Inr (1 / real ?m * - ((\<Sum>k<?m. y ! k * ?l1 ! k) + (\<Sum>k<?m. map (\<lambda>t. 1 - t) y ! k * ?l2 ! k)))"
    using assms by (simp add: computeCost_def Let_def smap_def d1 d2 b py_inv_def)
  also have "(\<Sum>k<?m. y ! k * ?l1 ! k) = (\<Sum>k<?m. y ! k * ln (p ! k + epsilon))"
    using assms by simp
  also have "(\<Sum>k<?m. map (\<lambda>t. 1 - t) y ! k * ?l2 ! k) =
      (\<Sum>k<?m. (1 - y ! k) * ln (1 - p ! k + epsilon))"
    using assms by simp
  finally show ?thesis
    by (simp add: sum.distrib diff_divide_distrib add_divide_distrib)
qed
lemma bidx_same: "i < n \<Longrightarrow> bidx n i = i"
  by (auto simp: bidx_def)

lemma bidx_one [simp]: "bidx (Suc 0) i = 0"
  by (simp add: bidx_def)

lemma broadcast2_ok:
  assumes "mat ra ca A" "mat rb cb N" "0 < ra" "0 < rb"
    and "bdim ra rb = Some r" "bdim ca cb = Some c"
  shows "broadcast2 f A N = Inr (bcast f A N r c)"
    and "mat r c (bcast f A N r c)"
    and "\<And>i j. i < r \<Longrightarrow> j < c \<Longrightarrow>
           bcast f A N r c ! i ! j = f (A ! bidx ra i ! bidx ca j) (N ! bidx rb i ! bidx cb j)"
  using assms by (simp_all add: broadcast2_mat mat_bcast bcast_nth mat_nrows mat_ncols)

text \<open>A row of labels against an array of \<open>n\<close> rows.\<close>

lemma broadcast2_row:
  assumes "mat n m A" "length y = m" "0 < n"
  shows "broadcast2 f [y] A = Inr (bcast f [y] A n m)"
    and "\<And>i j. i < n \<Longrightarrow> j < m \<Longrightarrow> bcast f [y] A n m ! i ! j = f (y ! j) (A ! i ! j)"
proof -
  have y: "mat 1 m [y]" using assms by (simp add: mat_def)
  show "broadcast2 f [y] A = Inr (bcast f [y] A n m)"
    using broadcast2_ok(1) [OF y assms(1), of n m f] assms by simp
  show "bcast f [y] A n m ! i ! j = f (y ! j) (A ! i ! j)" if "i < n" "j < m" for i j
    using broadcast2_ok(3) [OF y assms(1), of n m i j f] assms that
    by (simp add: bidx_same)
qed

lemma broadcast2_same:
  assumes "mat n m A" "mat n m N" "0 < n"
  shows "broadcast2 f A N = Inr (bcast f A N n m)"
    and "\<And>i j. i < n \<Longrightarrow> j < m \<Longrightarrow> bcast f A N n m ! i ! j = f (A ! i ! j) (N ! i ! j)"
proof -
  show "broadcast2 f A N = Inr (bcast f A N n m)"
    using broadcast2_ok(1) [OF assms(1,2), of n m f] assms by simp
  show "bcast f A N n m ! i ! j = f (A ! i ! j) (N ! i ! j)" if "i < n" "j < m" for i j
    using broadcast2_ok(3) [OF assms(1,2), of n m i j f] assms that
    by (simp add: bidx_same)
qed

text \<open>The output-layer gradient, entry by entry.\<close>

lemma output_dZ_ok:
  assumes A: "mat n m A" and Z: "mat n m Z" and y: "length y = m" and n: "0 < n"
  shows "\<exists>dZ. output_dZ y (Rec A (Some Z)) = Inr dZ \<and> mat n m dZ \<and>
     (\<forall>i<n. \<forall>j<m. dZ ! i ! j =
        (- (y ! j / (A ! i ! j + epsilon)) + (1 - y ! j) / (1 - A ! i ! j + epsilon)) *
        (expit (Z ! i ! j) * (1 - expit (Z ! i ! j))))"
proof -
  let ?A1 = "smap (\<lambda>a. a + epsilon) A" and ?A2 = "smap (\<lambda>a. 1 - a + epsilon) A"
  let ?y2 = "map (\<lambda>t. 1 - t) y"
  let ?q1 = "bcast (/) [y] ?A1 n m" and ?q2 = "bcast (/) [?y2] ?A2 n m"
  let ?dA = "bcast (+) (smap uminus ?q1) ?q2 n m"
  let ?dZ = "bcast (*) ?dA (dsigmoid Z) n m"
  have A1: "mat n m ?A1" and A2: "mat n m ?A2" using A by (simp_all add: mat_smap)
  have y2: "length ?y2 = m" using y by simp
  have q1: "broadcast2 (/) [y] ?A1 = Inr ?q1"
    by (rule broadcast2_row(1) [OF A1 y n])
  have q2: "broadcast2 (/) [?y2] ?A2 = Inr ?q2"
    by (rule broadcast2_row(1) [OF A2 y2 n])
  have mq1: "mat n m (smap uminus ?q1)" and mq2: "mat n m ?q2"
    by (simp_all add: mat_smap mat_bcast)
  have dA: "broadcast2 (+) (smap uminus ?q1) ?q2 = Inr ?dA"
    by (rule broadcast2_same(1) [OF mq1 mq2 n])
  have ds: "mat n m (dsigmoid Z)"
    using Z by (simp add: dsigmoid_def sigmoid_def mat_smap)
  have dZ: "broadcast2 (*) ?dA (dsigmoid Z) = Inr ?dZ"
    by (rule broadcast2_same(1) [OF mat_bcast ds n])
  have run: "output_dZ y (Rec A (Some Z)) = Inr ?dZ"
    by (simp add: output_dZ_def q1 q2 dA get_Z_def dZ)
  have ent: "?dZ ! i ! j =
        (- (y ! j / (A ! i ! j + epsilon)) + (1 - y ! j) / (1 - A ! i ! j + epsilon)) *
        (expit (Z ! i ! j) * (1 - expit (Z ! i ! j)))" if ij: "i < n" "j < m" for i j
  proof -
    have e1: "?q1 ! i ! j = y ! j / (A ! i ! j + epsilon)"
      using broadcast2_row(2) [OF A1 y n ij] smap_nth [OF A ij] by simp
    have e2: "?q2 ! i ! j = (1 - y ! j) / (1 - A ! i ! j + epsilon)"
      using broadcast2_row(2) [OF A2 y2 n ij] smap_nth [OF A ij] y ij by simp
    have e3: "?dA ! i ! j = - (y ! j / (A ! i ! j + epsilon)) + (1 - y ! j) / (1 - A ! i ! j + epsilon)"
      using broadcast2_same(2) [OF mq1 mq2 n ij] smap_nth [OF mat_bcast ij, of uminus "(/)" "[y]" ?A1] e1 e2
      by simp
    have e4: "dsigmoid Z ! i ! j = expit (Z ! i ! j) * (1 - expit (Z ! i ! j))"
      using smap_nth [OF Z ij, of expit] smap_nth [OF mat_smap [OF Z], of i j _ expit] ij
      by (simp add: dsigmoid_def sigmoid_def)
    show ?thesis
      using broadcast2_same(2) [OF mat_bcast ds n ij, of "(*)" "(+)" "smap uminus ?q1" ?q2] e3 e4
      by simp
  qed
  show ?thesis
    using run ent mat_bcast by blast
qed

section \<open>Facts about the logistic function\<close>

lemma expit_bounds: "0 \<le> expit z \<and> expit z \<le> 1"
  by (simp add: expit_def add_pos_pos less_imp_le)


lemma expit_zero: "expit 0 = 1 / 2"
  by (simp add: expit_def)

lemma expit_neg_ln:
  assumes "1 / 2 ^ 53 < x" "x < 2 ^ 1024"
  shows "expit (- ln x) = 1 / (1 + x)"
proof -
  have "0 < x" using assms(1) by (rule less_trans [rotated]) simp
  then have "exp (- (- ln x)) = x" by simp
  with assms show ?thesis by (simp only: expit_def) simp
qed



section \<open>Facts about the forward pass\<close>

lemma getp_Some: "map_of ps k = Some M \<Longrightarrow> getp ps k = Inr M"
  by (simp add: getp_def)

lemma stored_Some: "map_of ps k = Some M \<Longrightarrow> stored ps k = M"
  by (simp add: stored_def)

text \<open>One affine layer \<open>W \<cdot> A + b\<close>, as both loops of the forward pass compute it.\<close>

lemma affine_ok:
  assumes Wi: "mat n k Wi" and A: "mat k m A" and bi: "mat n 1 bi"
    and pos: "0 < n" "0 < k"
  shows "dot Wi A = Inr (matmul Wi A)"
    and "broadcast2 (+) (matmul Wi A) bi = Inr (bcast (+) (matmul Wi A) bi n m)"
    and "mat n m (bcast (+) (matmul Wi A) bi n m)"
    and "\<And>r c. r < n \<Longrightarrow> c < m \<Longrightarrow>
           bcast (+) (matmul Wi A) bi n m ! r ! c = (\<Sum>j<k. Wi ! r ! j * A ! j ! c) + bi ! r ! 0"
proof -
  have D: "mat n m (matmul Wi A)"
    by (rule mat_matmul [OF Wi A pos(2)])
  show "dot Wi A = Inr (matmul Wi A)"
    by (rule dot_mat [OF Wi A pos(1)])
  show "broadcast2 (+) (matmul Wi A) bi = Inr (bcast (+) (matmul Wi A) bi n m)"
    using broadcast2_ok(1) [OF D bi pos(1) pos(1), of n m "(+)"] by simp
  show "mat n m (bcast (+) (matmul Wi A) bi n m)"
    by (rule mat_bcast)
  show "bcast (+) (matmul Wi A) bi n m ! r ! c = (\<Sum>j<k. Wi ! r ! j * A ! j ! c) + bi ! r ! 0"
    if rc: "r < n" "c < m" for r c
    using broadcast2_ok(3) [OF D bi pos(1) pos(1), of n m r c "(+)"] rc
      matmul_nth [OF Wi A pos(2) rc]
    by (simp add: bidx_same)
qed

lemma spec_A_step:
  "1 \<le> i \<Longrightarrow> spec_A ls ps X i r c =
     (if i < length ls - 1 then max 0 (spec_Z ls ps X i r c)
      else expit (spec_Z ls ps X i r c))"
  by (cases i) (simp_all add: spec_Z_def)

lemma spec_rec_layer_rec: "spec_rec ls ps X m i r \<Longrightarrow> layer_rec ls m i r"
  by (auto simp: spec_rec_def layer_rec_def)

text \<open>
  The affine step of layer \<open>i\<close> on an activation that agrees with the specification at
  layer \<open>i - 1\<close>.
\<close>

lemma layer_affine:
  assumes pos: "\<forall>n \<in> set ls. 0 < n" and lp: "layer_params ls ps i"
    and i: "1 \<le> i" "i < length ls"
    and A: "mat (ls ! (i - 1)) m A"
    and spec: "\<forall>j<ls ! (i - 1). \<forall>c<m. A ! j ! c = spec_A ls ps X (i - 1) j c"
  shows "\<exists>Z. bindE (getp ps (W i)) (\<lambda>Wi. bindE (dot Wi A) (\<lambda>D.
               bindE (getp ps (B i)) (\<lambda>bi. bindE (broadcast2 (+) D bi) f))) = f Z \<and>
             mat (ls ! i) m Z \<and> (\<forall>j<ls ! i. \<forall>c<m. Z ! j ! c = spec_Z ls ps X i j c)"
proof -
  from lp obtain Wi bi where
    Wi: "map_of ps (W i) = Some Wi" "mat (ls ! i) (ls ! (i - 1)) Wi" and
    bi: "map_of ps (B i) = Some bi" "mat (ls ! i) 1 bi"
    by (auto simp: layer_params_def)
  have p: "0 < ls ! i" "0 < ls ! (i - 1)"
    using pos i by (simp_all add: nth_mem)
  let ?Z = "bcast (+) (matmul Wi A) bi (ls ! i) m"
  note aff = affine_ok [OF Wi(2) A bi(2) p]
  have run: "bindE (getp ps (W i)) (\<lambda>Wi. bindE (dot Wi A) (\<lambda>D.
               bindE (getp ps (B i)) (\<lambda>bi. bindE (broadcast2 (+) D bi) f))) = f ?Z"
    by (simp add: getp_Some [OF Wi(1)] getp_Some [OF bi(1)] aff(1,2))
  have "?Z ! j ! c = spec_Z ls ps X i j c" if jc: "j < ls ! i" "c < m" for j c
  proof -
    have "?Z ! j ! c = (\<Sum>k<ls ! (i - 1). Wi ! j ! k * A ! k ! c) + bi ! j ! 0"
      by (rule aff(4) [OF jc])
    also have "\<dots> = (\<Sum>k<ls ! (i - 1). Wi ! j ! k * spec_A ls ps X (i - 1) k c) + bi ! j ! 0"
      using spec jc by simp
    finally show ?thesis
      by (simp add: spec_Z_def stored_Some [OF Wi(1)] stored_Some [OF bi(1)])
  qed
  with run aff(3) show ?thesis by blast
qed

lemma ff_loop_ok:
  assumes pos: "\<forall>n \<in> set ls. 0 < n"
    and lp: "\<forall>i. 1 \<le> i \<and> i < length ls \<longrightarrow> layer_params ls ps i"
  shows "1 \<le> a \<Longrightarrow> a + n < length ls \<Longrightarrow> mat (ls ! (a - 1)) m A \<Longrightarrow>
     (\<forall>j<ls ! (a - 1). \<forall>c<m. A ! j ! c = spec_A ls ps X (a - 1) j c) \<Longrightarrow>
     \<exists>A' recs. ff_loop ps [a..<a + n] A c0 = Inr (A', c0 @ recs) \<and> length recs = n \<and>
        mat (ls ! (a + n - 1)) m A' \<and>
        (\<forall>j<ls ! (a + n - 1). \<forall>c<m. A' ! j ! c = spec_A ls ps X (a + n - 1) j c) \<and>
        (\<forall>i<n. spec_rec ls ps X m (a + i) (recs ! i))"
proof (induction n arbitrary: a A c0)
  case 0
  then show ?case by simp
next
  case (Suc n)
  have a: "1 \<le> a" "a < length ls" "a < length ls - 1"
    using Suc.prems by simp_all
  have lpa: "layer_params ls ps a"
    using lp a by simp
  from layer_affine [OF pos lpa a(1,2) Suc.prems(3,4),
      where f = "\<lambda>Z. ff_loop ps [Suc a..<Suc a + n] (relu Z) (c0 @ [Rec (relu Z) (Some Z)])"]
  obtain Z where
    run: "ff_loop ps (a # [Suc a..<Suc a + n]) A c0 =
            ff_loop ps [Suc a..<Suc a + n] (relu Z) (c0 @ [Rec (relu Z) (Some Z)])" and
    Z: "mat (ls ! a) m Z" "\<forall>j<ls ! a. \<forall>c<m. Z ! j ! c = spec_Z ls ps X a j c"
    by auto
  have rA: "mat (ls ! (Suc a - 1)) m (relu Z)"
    using Z(1) by (simp add: relu_def mat_smap)
  have rspec: "\<forall>j<ls ! (Suc a - 1). \<forall>c<m. relu Z ! j ! c = spec_A ls ps X (Suc a - 1) j c"
    using Z smap_nth [OF Z(1)] a by (simp add: relu_def spec_A_step)
  from Suc.IH [OF _ _ rA rspec, of "c0 @ [Rec (relu Z) (Some Z)]"] Suc.prems(2)
  obtain A' recs where
    ih: "ff_loop ps [Suc a..<Suc a + n] (relu Z) (c0 @ [Rec (relu Z) (Some Z)]) =
           Inr (A', (c0 @ [Rec (relu Z) (Some Z)]) @ recs)"
      "length recs = n" "mat (ls ! (Suc a + n - 1)) m A'"
      "\<forall>j<ls ! (Suc a + n - 1). \<forall>c<m. A' ! j ! c = spec_A ls ps X (Suc a + n - 1) j c"
      "\<forall>i<n. spec_rec ls ps X m (Suc a + i) (recs ! i)"
    by auto
  have here: "spec_rec ls ps X m a (Rec (relu Z) (Some Z))"
    using Z rA rspec by (simp add: spec_rec_def)
  have upt: "[a..<a + Suc n] = a # [Suc a..<Suc a + n]"
    by (simp add: upt_conv_Cons)
  have recs: "\<forall>i<Suc n. spec_rec ls ps X m (a + i) ((Rec (relu Z) (Some Z) # recs) ! i)"
  proof (intro allI impI)
    fix i assume "i < Suc n"
    then show "spec_rec ls ps X m (a + i) ((Rec (relu Z) (Some Z) # recs) ! i)"
      using here ih(5) by (cases i) simp_all
  qed
  show ?case
    apply (rule exI [of _ A'], rule exI [of _ "Rec (relu Z) (Some Z) # recs"])
    using run ih(1-4) recs unfolding upt by simp
qed

text \<open>
  The whole forward pass on a well-formed model: it raises nothing, keeps or creates entry 0
  of the cache, and appends one entry per layer, each as the specification says.
\<close>

lemma feed_forward_ok:
  assumes wl: "wf_layers ls" and wp: "wf_params ls (parameters st)"
    and X: "mat (ls ! 0) m X"
  shows "\<exists>AL ZL recs. feed_forward st X =
           Inr (AL, st\<lparr>cache := (if cache st = [] then [Rec X None] else take 1 (cache st)) @ recs\<rparr>) \<and>
         length recs = length ls - 1 \<and>
         (\<forall>i<length ls - 1. spec_rec ls (parameters st) X m (Suc i) (recs ! i)) \<and>
         recs ! (length ls - 2) = Rec AL (Some ZL) \<and> AL = sigmoid ZL"
proof -
  let ?ps = "parameters st"
  let ?L = "length ls - 1"
  define c0 where "c0 = (if cache st = [] then [Rec X None] else take 1 (cache st))"
  have c0eq: "(if length (cache st) = 0 then cache st @ [Rec X None] else take 1 (cache st)) = c0"
    by (simp add: c0_def)
  have pos: "\<forall>n \<in> set ls. 0 < n" and len: "2 \<le> length ls"
    using wl by (simp_all add: wf_layers_def)
  have lp: "\<forall>i. 1 \<le> i \<and> i < length ls \<longrightarrow> layer_params ls ?ps i"
    and L: "length ?ps div 2 = ?L"
    using wp by (simp_all add: wf_params_def)
  have X0: "\<forall>j<ls ! (1 - 1). \<forall>c<m. X ! j ! c = spec_A ls ?ps X (1 - 1) j c"
    by simp
  have X': "mat (ls ! (1 - 1)) m X" using X by simp
  have "1 + (?L - 1) < length ls" using len by simp
  from ff_loop_ok [OF pos lp _ this X' X0, of c0]
  obtain A' recs where
    loop: "ff_loop ?ps [1..<1 + (?L - 1)] X c0 = Inr (A', c0 @ recs)" and
    recs: "length recs = ?L - 1" "\<forall>i<?L - 1. spec_rec ls ?ps X m (1 + i) (recs ! i)" and
    A': "mat (ls ! (1 + (?L - 1) - 1)) m A'"
      "\<forall>j<ls ! (1 + (?L - 1) - 1). \<forall>c<m. A' ! j ! c = spec_A ls ?ps X (1 + (?L - 1) - 1) j c"
    by auto
  have L1: "1 + (?L - 1) = ?L" using len by simp
  have Lr: "1 \<le> ?L" "?L < length ls"
    using len by simp_all
  then have lpL: "layer_params ls ?ps ?L"
    using lp by blast
  from layer_affine [OF pos lpL Lr A' [unfolded L1],
      where f = "\<lambda>Z. Inr (sigmoid Z, st\<lparr>cache := (c0 @ recs) @ [Rec (sigmoid Z) (Some Z)]\<rparr>)"]
  obtain Z where
    out: "bindE (getp ?ps (W ?L)) (\<lambda>Wi. bindE (dot Wi A') (\<lambda>D.
            bindE (getp ?ps (B ?L)) (\<lambda>bi. bindE (broadcast2 (+) D bi)
              (\<lambda>Z. Inr (sigmoid Z, st\<lparr>cache := (c0 @ recs) @ [Rec (sigmoid Z) (Some Z)]\<rparr>))))) =
          Inr (sigmoid Z, st\<lparr>cache := (c0 @ recs) @ [Rec (sigmoid Z) (Some Z)]\<rparr>)" and
    Z: "mat (ls ! ?L) m Z" "\<forall>j<ls ! ?L. \<forall>c<m. Z ! j ! c = spec_Z ls ?ps X ?L j c"
    by auto
  have run: "feed_forward st X =
      Inr (sigmoid Z, st\<lparr>cache := c0 @ (recs @ [Rec (sigmoid Z) (Some Z)])\<rparr>)"
    unfolding feed_forward_def Let_def L c0eq loop [unfolded L1]
    using out by simp
  have sA: "mat (ls ! ?L) m (sigmoid Z)"
    using Z(1) by (simp add: sigmoid_def mat_smap)
  have sspec: "\<forall>j<ls ! ?L. \<forall>c<m. sigmoid Z ! j ! c = spec_A ls ?ps X ?L j c"
    using Z smap_nth [OF Z(1)] Lr by (simp add: sigmoid_def spec_A_step)
  have last: "spec_rec ls ?ps X m ?L (Rec (sigmoid Z) (Some Z))"
    using Z sA sspec by (simp add: spec_rec_def)
  have all: "\<forall>i<?L. spec_rec ls ?ps X m (Suc i) ((recs @ [Rec (sigmoid Z) (Some Z)]) ! i)"
  proof (intro allI impI)
    fix i assume i: "i < ?L"
    show "spec_rec ls ?ps X m (Suc i) ((recs @ [Rec (sigmoid Z) (Some Z)]) ! i)"
    proof (cases "i < ?L - 1")
      case True
      then show ?thesis using recs by (simp add: nth_append)
    next
      case False
      then have il: "i = length recs" and iL: "Suc i = ?L"
        using i recs(1) by simp_all
      have "(recs @ [Rec (sigmoid Z) (Some Z)]) ! i = Rec (sigmoid Z) (Some Z)"
        unfolding il by simp
      then show ?thesis
        using last unfolding iL by simp
    qed
  qed
  have nth_last: "(recs @ [Rec (sigmoid Z) (Some Z)]) ! (length ls - 2) = Rec (sigmoid Z) (Some Z)"
  proof -
    have "length ls - 2 = length recs" using recs(1) by simp
    then show ?thesis by simp
  qed
  show ?thesis
    apply (rule exI [of _ "sigmoid Z"], rule exI [of _ Z],
           rule exI [of _ "recs @ [Rec (sigmoid Z) (Some Z)]"])
    using run recs(1) all nth_last Lr by (simp add: c0_def)
qed

section \<open>Facts about construction\<close>

lemma init_loop_distinct:
  "distinct (map fst ps) \<Longrightarrow> distinct (map fst (init_loop ls rnd js ps))"
  by (induction js arbitrary: ps) (simp_all add: distinct_update)

lemma init_loop_keys:
  "fst ` set (init_loop ls rnd js ps) = fst ` set ps \<union> W ` set js \<union> B ` set js"
  by (induction js arbitrary: ps) (auto simp: dom_update)

lemma init_loop_W:
  "map_of (init_loop ls rnd js ps) (W i) =
     (if i \<in> set js
      then Some (smap (\<lambda>x. x * (1 / 10)) (randn (rnd i) (ls ! i) (ls ! (i - 1))))
      else map_of ps (W i))"
  by (induction js arbitrary: ps) (simp_all add: update_conv')

lemma init_loop_B:
  "map_of (init_loop ls rnd js ps) (B i) =
     (if i \<in> set js then Some (zeros (ls ! i) 1) else map_of ps (B i))"
  by (induction js arbitrary: ps) (simp_all add: update_conv')

lemma card_layer_keys: "card (W ` {1..<n} \<union> B ` {1..<n}) = 2 * (n - 1)"
proof -
  have "card (W ` {1..<n} \<union> B ` {1..<n}) = card (W ` {1..<n}) + card (B ` {1..<n})"
    by (rule card_Un_disjoint) auto
  also have "card (W ` {1..<n}) = n - 1"
    by (simp add: card_image inj_on_def)
  also have "card (B ` {1..<n}) = n - 1"
    by (simp add: card_image inj_on_def)
  finally show ?thesis by simp
qed

lemma init_loop_length:
  "length (init_loop ls rnd [1..<n] []) = 2 * (n - 1)"
proof -
  let ?ps = "init_loop ls rnd [1..<n] []"
  have "distinct (map fst ?ps)"
    by (rule init_loop_distinct) simp
  from distinct_card [OF this] have "length ?ps = card (set (map fst ?ps))"
    by simp
  also have "set (map fst ?ps) = W ` {1..<n} \<union> B ` {1..<n}"
    using init_loop_keys [of ls rnd "[1..<n]" "[]"] by simp
  finally show ?thesis
    by (simp only: card_layer_keys)
qed

lemma init_loop_wf: "wf_params ls (init_loop ls rnd [1..<length ls] [])"
  unfolding wf_params_def layer_params_def
  using init_loop_length [of ls rnd "length ls"]
  by (simp add: init_loop_distinct init_loop_W init_loop_B mat_smap mat_randn mat_zeros)

lemma Model_fields:
  "parameters (Model lr n ls rnd) = init_loop ls rnd [1..<length ls] []"
  "layers (Model lr n ls rnd) = ls" "cache (Model lr n ls rnd) = []"
  "J_hist (Model lr n ls rnd) = []" "num_iters (Model lr n ls rnd) = n"
  "learning_rate (Model lr n ls rnd) = lr" "growth_rate (Model lr n ls rnd) = None"
  by (simp_all add: Model_def initialize_parameters_def)

section \<open>Facts about the cost and the backward pass\<close>

lemma computeCost_ok:
  assumes P: "mat n m P" and y: "length y = m" and pos: "0 < n" "0 < m"
  shows "\<exists>c. computeCost y P = Inr c"
proof -
  let ?P1 = "smap (\<lambda>p. ln (p + epsilon)) P" and ?P2 = "smap (\<lambda>p. ln (1 - p + epsilon)) P"
  let ?y2 = "map (\<lambda>t. 1 - t) y"
  have ym: "mat 1 m [y]" "mat 1 m [?y2]" using y by (simp_all add: mat_def)
  have T1: "mat m n (transpose_T ?P1)" and T2: "mat m n (transpose_T ?P2)"
    using P pos by (simp_all add: mat_smap mat_transpose_T)
  have d1: "dot [y] (transpose_T ?P1) = Inr (matmul [y] (transpose_T ?P1))"
    and d2: "dot [?y2] (transpose_T ?P2) = Inr (matmul [?y2] (transpose_T ?P2))"
    using dot_mat [OF ym(1) T1] dot_mat [OF ym(2) T2] by simp_all
  have m1: "mat 1 n (matmul [y] (transpose_T ?P1))"
    and m2: "mat 1 n (matmul [?y2] (transpose_T ?P2))"
    using mat_matmul [OF ym(1) T1 pos(2)] mat_matmul [OF ym(2) T2 pos(2)] by simp_all
  let ?s = "bcast (+) (matmul [y] (transpose_T ?P1)) (matmul [?y2] (transpose_T ?P2)) 1 n"
  have s: "broadcast2 (+) (matmul [y] (transpose_T ?P1)) (matmul [?y2] (transpose_T ?P2)) = Inr ?s"
    using broadcast2_same(1) [OF m1 m2] by simp
  have "length (smap uminus ?s) = 1"
    using mat_length [OF mat_smap [OF mat_bcast]] by simp
  then obtain row where row: "smap uminus ?s = [row]"
    by (cases "smap uminus ?s") auto
  show ?thesis
    using pos(2) y row by (simp add: computeCost_def Let_def d1 d2 s py_inv_def)
qed

lemma filled_cache_A:
  "filled_cache ls m c \<Longrightarrow> i < length ls \<Longrightarrow> mat (ls ! i) m (rec_A (c ! i))"
proof (cases "i = 0")
  case True
  then show "filled_cache ls m c \<Longrightarrow> ?thesis"
    by (simp add: filled_cache_def)
next
  case False
  assume "filled_cache ls m c" "i < length ls"
  with False have "layer_rec ls m i (c ! i)"
    by (simp add: filled_cache_def)
  then show ?thesis
    by (auto simp: layer_rec_def)
qed

lemma filled_cache_Z:
  "filled_cache ls m c \<Longrightarrow> 1 \<le> i \<Longrightarrow> i < length ls \<Longrightarrow>
     \<exists>Z. get_Z (c ! i) = Inr Z \<and> rec_Z (c ! i) = Some Z \<and> mat (ls ! i) m Z"
proof -
  assume "filled_cache ls m c" "1 \<le> i" "i < length ls"
  then have "layer_rec ls m i (c ! i)"
    by (simp add: filled_cache_def)
  then show ?thesis
    by (auto simp: layer_rec_def get_Z_def)
qed

lemma py_index_nat: "i < length xs \<Longrightarrow> py_index xs (int i) = Inr (xs ! i)"
  by (simp add: py_index_def)

lemma py_index_back:
  "1 \<le> k \<Longrightarrow> k \<le> length xs \<Longrightarrow> py_index xs (- int k) = Inr (xs ! (length xs - k))"
  by (simp add: py_index_def nat_diff_distrib')

text \<open>The product \<open>dZ \<cdot> A\<^sup>T\<close> of a gradient and a cached activation, and \<open>W\<^sup>T \<cdot> dZ\<close>.\<close>

lemma grad_products:
  assumes dZ: "mat n m dZ" and A: "mat k m A" and Wi: "mat n k Wi"
    and pos: "0 < n" "0 < k" "0 < m"
  shows "dot dZ (transpose_T A) = Inr (matmul dZ (transpose_T A))"
    and "mat n k (matmul dZ (transpose_T A))"
    and "dot (transpose_T Wi) dZ = Inr (matmul (transpose_T Wi) dZ)"
    and "mat k m (matmul (transpose_T Wi) dZ)"
proof -
  have TA: "mat m k (transpose_T A)" by (rule mat_transpose_T [OF A pos(2)])
  have TW: "mat k n (transpose_T Wi)" by (rule mat_transpose_T [OF Wi pos(1)])
  show "dot dZ (transpose_T A) = Inr (matmul dZ (transpose_T A))"
    by (rule dot_mat [OF dZ TA pos(1)])
  show "mat n k (matmul dZ (transpose_T A))"
    by (rule mat_matmul [OF dZ TA pos(3)])
  show "dot (transpose_T Wi) dZ = Inr (matmul (transpose_T Wi) dZ)"
    by (rule dot_mat [OF TW dZ pos(2)])
  show "mat k m (matmul (transpose_T Wi) dZ)"
    by (rule mat_matmul [OF TW dZ pos(1)])
qed

lemma bp_loop_ok:
  assumes pos: "\<forall>n \<in> set ls. 0 < n"
    and lp: "\<forall>i. 1 \<le> i \<and> i < length ls \<longrightarrow> layer_params ls ps i"
    and fc: "filled_cache ls m c" and m: "0 < m"
  shows "k < length ls - 1 \<Longrightarrow> mat (ls ! k) m da \<Longrightarrow>
     (\<forall>i. k < i \<and> i < length ls \<longrightarrow> layer_grads ls g i) \<Longrightarrow>
     \<exists>g'. bp_loop ps c m (rev [1..<Suc k]) da g = Inr g' \<and> wf_grads ls g'"
proof (induction k arbitrary: da g)
  case 0
  then show ?case by (simp add: wf_grads_def)
next
  case (Suc k)
  let ?i = "Suc k"
  have i: "1 \<le> ?i" "?i < length ls" and k: "k < length ls" "k < length ls - 1"
    using Suc.prems(1) by simp_all
  have lc: "length c = length ls" using fc by (simp add: filled_cache_def)
  have p: "0 < ls ! ?i" "0 < ls ! k"
    using pos i k by (simp_all add: nth_mem)
  from filled_cache_Z [OF fc i] obtain Z where
    Z: "get_Z (c ! ?i) = Inr Z" "mat (ls ! ?i) m Z" by blast
  have dr: "mat (ls ! ?i) m (drelu Z)"
    using Z(2) by (simp add: drelu_def mat_smap)
  let ?dZ = "bcast (*) da (drelu Z) (ls ! ?i) m"
  have dZ: "broadcast2 (*) da (drelu Z) = Inr ?dZ"
    by (rule broadcast2_same(1) [OF Suc.prems(2) dr p(1)])
  have mdZ: "mat (ls ! ?i) m ?dZ" by (rule mat_bcast)
  have A: "mat (ls ! k) m (rec_A (c ! k))"
    by (rule filled_cache_A [OF fc k(1)])
  have "layer_params ls ps ?i" using lp i by blast
  then obtain Wi where
    Wi: "map_of ps (W ?i) = Some Wi" "mat (ls ! ?i) (ls ! k) Wi"
    by (auto simp: layer_params_def)
  note gp = grad_products [OF mdZ A Wi(2) p m]
  have ix: "py_index c (int ?i) = Inr (c ! ?i)" "py_index c (int ?i - 1) = Inr (c ! k)"
    using py_index_nat [of ?i c] py_index_nat [of k c] i k lc by simp_all
  let ?g = "g(DW ?i \<mapsto> smap ((*) (1 / real m)) (matmul ?dZ (transpose_T (rec_A (c ! k)))),
              DB ?i \<mapsto> smap ((*) (1 / real m)) (sum_axis1 ?dZ))"
  have pm: "py_inv m = Inr (1 / real m)"
    using m by (simp add: py_inv_def)
  have step: "bp_loop ps c m (?i # rest) da g =
      bp_loop ps c m rest (matmul (transpose_T Wi) ?dZ) ?g" for rest
    by (simp only: bp_loop.simps(2) ix bindE_simps Z(1) dZ pm gp(1,3) getp_Some [OF Wi(1)])
  have here: "layer_grads ls ?g ?i"
    using gp(2) mat_smap [OF mat_sum_axis1 [OF mdZ]] by (simp add: layer_grads_def mat_smap)
  have above: "layer_grads ls ?g j" if "?i < j" "j < length ls" for j
    using Suc.prems(3) that by (simp add: layer_grads_def)
  have "\<forall>j. k < j \<and> j < length ls \<longrightarrow> layer_grads ls ?g j"
  proof (intro allI impI)
    fix j assume "k < j \<and> j < length ls"
    then show "layer_grads ls ?g j"
      using here above [of j] by (cases "j = ?i") simp_all
  qed
  from Suc.IH [OF k(2) gp(4) this] obtain g' where
    "bp_loop ps c m (rev [1..<Suc k]) (matmul (transpose_T Wi) ?dZ) ?g = Inr g'" "wf_grads ls g'"
    by blast
  moreover have "rev [1..<Suc ?i] = ?i # rev [1..<Suc k]" by simp
  ultimately show ?case using step [of "rev [1..<Suc k]"] by (simp only:) blast
qed

lemma back_propagate_ok:
  assumes wl: "wf_layers ls" and wp: "wf_params ls (parameters st)"
    and fc: "filled_cache ls m (cache st)" and y: "length y = m" and m: "0 < m"
  shows "\<exists>g. back_propagate st X y = Inr g \<and> wf_grads ls g"
proof -
  let ?ps = "parameters st" and ?c = "cache st"
  let ?L = "length ls - 1"
  have pos: "\<forall>n \<in> set ls. 0 < n" and len: "2 \<le> length ls"
    using wl by (simp_all add: wf_layers_def)
  have lp: "\<forall>i. 1 \<le> i \<and> i < length ls \<longrightarrow> layer_params ls ?ps i"
    and L: "length ?ps div 2 = ?L"
    using wp by (simp_all add: wf_params_def)
  have lc: "length ?c = length ls" using fc by (simp add: filled_cache_def)
  have Lr: "1 \<le> ?L" "?L < length ls" "?L - 1 < length ls" "?L - 1 < length ls - 1"
    using len by simp_all
  have p: "0 < ls ! ?L" "0 < ls ! (?L - 1)"
    using pos Lr by (simp_all add: nth_mem)
  have ix: "py_index ?c (- 1) = Inr (?c ! ?L)" "py_index ?c (- 2) = Inr (?c ! (?L - 1))"
    using py_index_back [of 1 ?c] py_index_back [of 2 ?c] lc len
    by (simp_all add: numeral_2_eq_2)
  have "layer_rec ls m ?L (?c ! ?L)"
    using fc Lr by (simp add: filled_cache_def)
  then obtain A Z where rec: "?c ! ?L = Rec A (Some Z)" "mat (ls ! ?L) m A" "mat (ls ! ?L) m Z"
    by (auto simp: layer_rec_def)
  from output_dZ_ok [OF rec(2,3) y p(1)] obtain dZ where
    dZ: "output_dZ y (?c ! ?L) = Inr dZ" "mat (ls ! ?L) m dZ"
    unfolding rec(1) by blast
  have Ap: "mat (ls ! (?L - 1)) m (rec_A (?c ! (?L - 1)))"
    by (rule filled_cache_A [OF fc Lr(3)])
  have "layer_params ls ?ps ?L" using lp Lr by blast
  then obtain WL where
    WL: "map_of ?ps (W ?L) = Some WL" "mat (ls ! ?L) (ls ! (?L - 1)) WL"
    by (auto simp: layer_params_def)
  note gp = grad_products [OF dZ(2) Ap WL(2) p m]
  let ?g = "[DW ?L \<mapsto> smap ((*) (1 / real m)) (matmul dZ (transpose_T (rec_A (?c ! (?L - 1))))),
             DB ?L \<mapsto> smap ((*) (1 / real m)) (sum_axis1 dZ)]"
  have run: "back_propagate st X y =
      bp_loop ?ps ?c m (rev [1..<?L]) (matmul (transpose_T WL) dZ) ?g"
    using m y ix dZ(1) gp(1,3) getp_Some [OF WL(1)]
    by (simp add: back_propagate_def Let_def L py_inv_def)
  have gL: "layer_grads ls ?g ?L"
    using gp(2) mat_smap [OF mat_sum_axis1 [OF dZ(2)]] by (simp add: layer_grads_def mat_smap)
  have "\<forall>j. ?L - 1 < j \<and> j < length ls \<longrightarrow> layer_grads ls ?g j"
  proof (intro allI impI)
    fix j assume "?L - 1 < j \<and> j < length ls"
    then have "j = ?L" by arith
    then show "layer_grads ls ?g j" using gL by simp
  qed
  moreover have eq: "Suc (?L - 1) = ?L" using Lr by simp
  ultimately obtain g' where
    "bp_loop ?ps ?c m (rev [1..<?L]) (matmul (transpose_T WL) dZ) ?g = Inr g'"
    "wf_grads ls g'"
    using bp_loop_ok [OF pos lp fc m Lr(4) gp(4), of ?g] unfolding eq by blast
  then show ?thesis unfolding run by blast
qed

section \<open>Facts about the parameter update\<close>

lemma map_of_key_mem: "map_of ps k = Some v \<Longrightarrow> k \<in> fst ` set ps"
  by (metis map_of_eq_None_iff option.distinct(1))

lemma length_update_mem:
  assumes "k \<in> fst ` set al"
  shows "length (AList.update k v al) = length al"
proof -
  have "length (map fst (AList.update k v al)) = length (map fst al)"
    using assms by (simp add: update_keys)
  then show ?thesis by simp
qed

lemma wf_params_update:
  assumes wf: "wf_params ls ps" and old: "map_of ps k = Some v"
    and keep: "\<forall>i. 1 \<le> i \<and> i < length ls \<longrightarrow> layer_params ls (AList.update k M ps) i"
  shows "wf_params ls (AList.update k M ps)"
  using wf keep map_of_key_mem [OF old]
  by (simp add: wf_params_def distinct_update length_update_mem)

lemma descent_step:
  assumes pos: "\<forall>n \<in> set ls. 0 < n" and wf: "wf_params ls ps"
    and lg: "layer_grads ls g j" and j: "1 \<le> j" "j < length ls"
  shows "\<exists>ps2. (\<forall>js. update_loop lr g (j # js) ps = update_loop lr g js ps2) \<and>
     wf_params ls ps2 \<and> descended ls lr g ps ps2 j \<and>
     (\<forall>k. k \<noteq> W j \<and> k \<noteq> B j \<longrightarrow> map_of ps2 k = map_of ps k)"
proof -
  let ?n = "ls ! j" and ?k = "ls ! (j - 1)"
  have "layer_params ls ps j" using wf j by (simp add: wf_params_def)
  then obtain Wj bj where
    Wj: "map_of ps (W j) = Some Wj" "mat ?n ?k Wj" and
    bj: "map_of ps (B j) = Some bj" "mat ?n 1 bj"
    by (auto simp: layer_params_def)
  from lg obtain dW db where
    dW: "g (DW j) = Some dW" "mat ?n ?k dW" and db: "g (DB j) = Some db" "mat ?n 1 db"
    by (auto simp: layer_grads_def)
  have n: "0 < ?n" using pos j by (simp add: nth_mem)
  let ?W' = "bcast (-) Wj (smap ((*) lr) dW) ?n ?k"
  let ?b' = "bcast (-) bj (smap ((*) lr) db) ?n 1"
  let ?ps1 = "AList.update (W j) ?W' ps"
  let ?ps2 = "AList.update (B j) ?b' ?ps1"
  have sW: "mat ?n ?k (smap ((*) lr) dW)" and sb: "mat ?n 1 (smap ((*) lr) db)"
    using dW(2) db(2) by (simp_all add: mat_smap)
  have bW: "broadcast2 (-) Wj (smap ((*) lr) dW) = Inr ?W'"
    by (rule broadcast2_same(1) [OF Wj(2) sW n])
  have bb: "broadcast2 (-) bj (smap ((*) lr) db) = Inr ?b'"
    by (rule broadcast2_same(1) [OF bj(2) sb n])
  have eW: "?W' ! r ! c = Wj ! r ! c - lr * dW ! r ! c" if "r < ?n" "c < ?k" for r c
    using broadcast2_same(2) [OF Wj(2) sW n that] smap_nth [OF dW(2) that] by simp
  have eb: "?b' ! r ! 0 = bj ! r ! 0 - lr * db ! r ! 0" if "r < ?n" for r
    using broadcast2_same(2) [OF bj(2) sb n that, of 0] smap_nth [OF db(2) that, of 0] by simp
  have m1: "map_of ?ps1 = (map_of ps)(W j \<mapsto> ?W')"
    by (simp add: update_conv')
  have m2: "map_of ?ps2 = (map_of ps)(W j \<mapsto> ?W', B j \<mapsto> ?b')"
    by (simp add: update_conv')
  have g1: "getp ?ps1 (B j) = Inr bj"
    using bj(1) by (simp add: getp_def update_conv')
  have run: "update_loop lr g (j # js) ps = update_loop lr g js ?ps2" for js
    using bW bb g1 by (simp add: getp_Some [OF Wj(1)] getg_def dW(1) db(1) Let_def)
  have lp1: "layer_params ls ?ps1 i" if "1 \<le> i" "i < length ls" for i
  proof (cases "i = j")
    case True
    then show ?thesis
      using bj by (simp add: layer_params_def update_conv' mat_bcast)
  next
    case False
    have "layer_params ls ps i" using wf that by (simp add: wf_params_def)
    then show ?thesis using False by (simp add: layer_params_def update_conv')
  qed
  have wf1: "wf_params ls ?ps1"
    by (rule wf_params_update [OF wf Wj(1)]) (use lp1 in blast)
  have lp2: "layer_params ls ?ps2 i" if "1 \<le> i" "i < length ls" for i
  proof (cases "i = j")
    case True
    then show ?thesis
      by (simp add: layer_params_def update_conv' mat_bcast)
  next
    case False
    have "layer_params ls ps i" using wf that by (simp add: wf_params_def)
    then show ?thesis using False by (simp add: layer_params_def update_conv')
  qed
  have old1: "map_of ?ps1 (B j) = Some bj" by (simp add: update_conv' bj(1))
  have wf2: "wf_params ls ?ps2"
    by (rule wf_params_update [OF wf1 old1]) (use lp2 in blast)
  have desc: "descended ls lr g ps ?ps2 j"
    unfolding descended_def
    apply (rule exI [of _ Wj], rule exI [of _ bj], rule exI [of _ dW], rule exI [of _ db],
        rule exI [of _ ?W'], rule exI [of _ ?b'])
    using Wj(1) bj(1) dW(1) db(1) eW eb by (simp add: update_conv' mat_bcast)
  have frame: "\<forall>k. k \<noteq> W j \<and> k \<noteq> B j \<longrightarrow> map_of ?ps2 k = map_of ps k"
    by (simp add: update_conv')
  from run wf2 desc frame show ?thesis by blast
qed

lemma descended_cong:
  assumes "descended ls lr g ps ps' j"
    and "map_of qs (W j) = map_of ps (W j)" "map_of qs (B j) = map_of ps (B j)"
    and "map_of qs' (W j) = map_of ps' (W j)" "map_of qs' (B j) = map_of ps' (B j)"
  shows "descended ls lr g qs qs' j"
  using assms unfolding descended_def by simp

lemma update_loop_ok:
  assumes pos: "\<forall>n \<in> set ls. 0 < n" and wg: "wf_grads ls g"
  shows "wf_params ls ps \<Longrightarrow> distinct js \<Longrightarrow> (\<forall>j \<in> set js. 1 \<le> j \<and> j < length ls) \<Longrightarrow>
     \<exists>ps'. update_loop lr g js ps = Inr ps' \<and> wf_params ls ps' \<and>
       (\<forall>j \<in> set js. descended ls lr g ps ps' j) \<and>
       (\<forall>k. (\<forall>j \<in> set js. k \<noteq> W j \<and> k \<noteq> B j) \<longrightarrow> map_of ps' k = map_of ps k)"
proof (induction js arbitrary: ps)
  case Nil
  then show ?case by simp
next
  case (Cons j js)
  have j: "1 \<le> j" "j < length ls" "j \<notin> set js"
    using Cons.prems by simp_all
  have lg: "layer_grads ls g j" using wg j by (simp add: wf_grads_def)
  from descent_step [OF pos Cons.prems(1) lg j(1,2), of lr] obtain ps2 where
    ps2: "\<And>js. update_loop lr g (j # js) ps = update_loop lr g js ps2" "wf_params ls ps2"
      "descended ls lr g ps ps2 j" "\<And>k. k \<noteq> W j \<Longrightarrow> k \<noteq> B j \<Longrightarrow> map_of ps2 k = map_of ps k"
    by blast
  from Cons.IH [OF ps2(2)] Cons.prems obtain ps' where
    ih: "update_loop lr g js ps2 = Inr ps'" "wf_params ls ps'"
      "\<And>i. i \<in> set js \<Longrightarrow> descended ls lr g ps2 ps' i"
      "\<And>k. (\<forall>i \<in> set js. k \<noteq> W i \<and> k \<noteq> B i) \<Longrightarrow> map_of ps' k = map_of ps2 k"
    by auto
  have keepW: "map_of ps' (W j) = map_of ps2 (W j)" and keepB: "map_of ps' (B j) = map_of ps2 (B j)"
    using ih(4) [of "W j"] ih(4) [of "B j"] j(3) by auto
  have dj: "descended ls lr g ps ps' j"
    by (rule descended_cong [OF ps2(3) refl refl keepW keepB])
  have di: "descended ls lr g ps ps' i" if "i \<in> set js" for i
  proof -
    have "i \<noteq> j" using that j(3) by auto
    then have "map_of ps (W i) = map_of ps2 (W i)" "map_of ps (B i) = map_of ps2 (B i)"
      using ps2(4) [of "W i"] ps2(4) [of "B i"] by simp_all
    from descended_cong [OF ih(3) [OF that] this refl refl] show ?thesis .
  qed
  have frame: "map_of ps' k = map_of ps k" if "\<forall>i \<in> set (j # js). k \<noteq> W i \<and> k \<noteq> B i" for k
    using ih(4) [of k] ps2(4) [of k] that by simp
  show ?case
    using ps2(1) [of js] ih(1,2) dj di frame by auto
qed

section \<open>Facts about training\<close>

lemma bindE_Inr: "bindE r f = Inr v \<Longrightarrow> \<exists>u. r = Inr u \<and> f u = Inr v"
  by (cases r) simp_all

lemma feed_forward_frame:
  assumes "feed_forward st X = Inr (p, st1)"
  shows "\<exists>c1. st1 = st\<lparr>cache := c1\<rparr>"
  using assms unfolding feed_forward_def Let_def
  by (auto dest!: bindE_Inr split: prod.splits)

lemma train_step_frame:
  assumes "train_step st X y = Inr (c, st')"
  shows "J_hist st' = J_hist st @ [c]" "layers st' = layers st"
    "learning_rate st' = learning_rate st" "num_iters st' = num_iters st"
    "growth_rate st' = growth_rate st"
proof -
  from assms obtain p st1 ps where
    ff: "feed_forward st X = Inr (p, st1)" and
    st': "st' = st1\<lparr>parameters := ps, J_hist := J_hist st1 @ [c]\<rparr>"
    unfolding train_step_def by (auto dest!: bindE_Inr split: prod.splits)
  from feed_forward_frame [OF ff] obtain c1 where "st1 = st\<lparr>cache := c1\<rparr>" ..
  with st' show "J_hist st' = J_hist st @ [c]" "layers st' = layers st"
    "learning_rate st' = learning_rate st" "num_iters st' = num_iters st"
    "growth_rate st' = growth_rate st"
    by simp_all
qed

text \<open>One iteration on a trainable model: every stage succeeds, in the order of the source.\<close>

lemma train_step_ok:
  assumes tr: "trainable m st" and X: "mat (layers st ! 0) m X"
    and y: "length y = m" and m: "0 < m"
  shows "\<exists>pred c1 c g ps'.
     feed_forward st X = Inr (pred, st\<lparr>cache := c1\<rparr>) \<and> filled_cache (layers st) m c1 \<and>
     computeCost y pred = Inr c \<and>
     back_propagate (st\<lparr>cache := c1\<rparr>) X y = Inr g \<and> wf_grads (layers st) g \<and>
     update_loop (learning_rate st) g [1..<length (layers st)] (parameters st) = Inr ps' \<and>
     wf_params (layers st) ps' \<and>
     (\<forall>j. 1 \<le> j \<and> j < length (layers st) \<longrightarrow>
        descended (layers st) (learning_rate st) g (parameters st) ps' j) \<and>
     train_step st X y = Inr (c, st\<lparr>cache := c1, parameters := ps', J_hist := J_hist st @ [c]\<rparr>)"
proof -
  let ?ls = "layers st" and ?ps = "parameters st"
  let ?L = "length ?ls - 1"
  have wl: "wf_layers ?ls" and wp: "wf_params ?ls ?ps"
    and c0: "cache st = [] \<or> mat (?ls ! 0) m (rec_A (cache st ! 0))"
    using tr by (simp_all add: trainable_def)
  have pos: "\<forall>n \<in> set ?ls. 0 < n" and len: "2 \<le> length ?ls"
    using wl by (simp_all add: wf_layers_def)
  define c0 where "c0 = (if cache st = [] then [Rec X None] else take 1 (cache st))"
  from feed_forward_ok [OF wl wp X] obtain AL ZL recs where
    ff: "feed_forward st X = Inr (AL, st\<lparr>cache := c0 @ recs\<rparr>)" and
    recs: "length recs = ?L" "\<forall>i<?L. spec_rec ?ls ?ps X m (Suc i) (recs ! i)"
      "recs ! (length ?ls - 2) = Rec AL (Some ZL)"
    unfolding c0_def by blast
  have lc0: "length c0 = 1" and A0: "mat (?ls ! 0) m (rec_A (c0 ! 0))"
    using c0 X by (cases "cache st"; simp add: c0_def)+
  have fc: "filled_cache ?ls m (c0 @ recs)"
    unfolding filled_cache_def
  proof (intro conjI allI impI)
    show "length (c0 @ recs) = length ?ls" using lc0 recs(1) len by simp
    show "mat (?ls ! 0) m (rec_A ((c0 @ recs) ! 0))" using lc0 A0 by (simp add: nth_append)
    fix i assume i: "1 \<le> i \<and> i < length ?ls"
    then have "i - 1 < ?L" by arith
    then have "spec_rec ?ls ?ps X m (Suc (i - 1)) (recs ! (i - 1))" using recs(2) by blast
    moreover have "Suc (i - 1) = i" using i by simp
    moreover have "(c0 @ recs) ! i = recs ! (i - 1)" using lc0 i by (simp add: nth_append)
    ultimately show "layer_rec ?ls m i ((c0 @ recs) ! i)"
      using spec_rec_layer_rec by simp
  qed
  have "length ?ls - 2 < ?L" using len by simp
  then have "spec_rec ?ls ?ps X m (Suc (length ?ls - 2)) (recs ! (length ?ls - 2))"
    using recs(2) by blast
  moreover have "Suc (length ?ls - 2) = ?L" using len by simp
  ultimately have "spec_rec ?ls ?ps X m ?L (Rec AL (Some ZL))"
    using recs(3) by simp
  then have AL: "mat (?ls ! ?L) m AL" by (simp add: spec_rec_def)
  have pL: "0 < ?ls ! ?L" using pos len by (simp add: nth_mem)
  from computeCost_ok [OF AL y pL m] obtain c where cc: "computeCost y AL = Inr c" ..
  have wp1: "wf_params ?ls (parameters (st\<lparr>cache := c0 @ recs\<rparr>))"
    and fc1: "filled_cache ?ls m (cache (st\<lparr>cache := c0 @ recs\<rparr>))"
    using wp fc by simp_all
  from back_propagate_ok [OF wl wp1 fc1 y m, of X] obtain g where
    bp: "back_propagate (st\<lparr>cache := c0 @ recs\<rparr>) X y = Inr g" "wf_grads ?ls g" by blast
  have "\<forall>j \<in> set [1..<length ?ls]. 1 \<le> j \<and> j < length ?ls" by simp
  from update_loop_ok [OF pos bp(2) wp _ this, of "learning_rate st"] obtain ps' where
    up: "update_loop (learning_rate st) g [1..<length ?ls] ?ps = Inr ps'" "wf_params ?ls ps'"
      "\<forall>j \<in> set [1..<length ?ls]. descended ?ls (learning_rate st) g ?ps ps' j"
    by auto
  have run: "train_step st X y =
      Inr (c, st\<lparr>cache := c0 @ recs, parameters := ps', J_hist := J_hist st @ [c]\<rparr>)"
    using up(1) by (simp add: train_step_def ff cc bp(1))
  show ?thesis
    apply (rule exI [of _ AL], rule exI [of _ "c0 @ recs"], rule exI [of _ c],
        rule exI [of _ g], rule exI [of _ ps'])
    using ff fc cc bp up run by simp
qed

lemma check_growth_frame:
  "check_growth st = (b, st') \<Longrightarrow>
     st' = st \<or> (\<exists>g. st' = st\<lparr>growth_rate := Some g\<rparr>)"
  by (auto simp: check_growth_def Let_def split: if_splits)

lemma trainable_after_step:
  assumes "trainable m st" "filled_cache (layers st) m c1" "wf_params (layers st) ps'"
  shows "trainable m (st\<lparr>cache := c1, parameters := ps', J_hist := J\<rparr>)"
  using assms by (simp add: trainable_def filled_cache_def)

lemma trainable_growth:
  "trainable m st \<Longrightarrow> check_growth st = (b, st') \<Longrightarrow> trainable m st' \<and> layers st' = layers st"
  by (auto dest!: check_growth_frame simp: trainable_def)

text \<open>The loop of \<^verbatim>\<open>train\<close> on a trainable model returns, and leaves the model trainable.\<close>

lemma train_loop_ok:
  assumes X: "mat (ls ! 0) m X" and y: "length y = m" and m: "0 < m"
  shows "trainable m st \<Longrightarrow> layers st = ls \<Longrightarrow>
     \<exists>cost' st'. train_loop n X y cost st = Inr (cost', st') \<and> trainable m st' \<and>
        layers st' = ls \<and> (0 < n \<or> cost \<noteq> None \<longrightarrow> cost' \<noteq> None)"
proof (induction n arbitrary: st cost)
  case 0
  then show ?case by simp
next
  case (Suc n)
  have X': "mat (layers st ! 0) m X" using X Suc.prems(2) by simp
  from train_step_ok [OF Suc.prems(1) X' y m] obtain c1 c ps' where
    fc: "filled_cache (layers st) m c1" and wp: "wf_params (layers st) ps'" and
    step: "train_step st X y =
        Inr (c, st\<lparr>cache := c1, parameters := ps', J_hist := J_hist st @ [c]\<rparr>)"
    by blast
  let ?st1 = "st\<lparr>cache := c1, parameters := ps', J_hist := J_hist st @ [c]\<rparr>"
  have t1: "trainable m ?st1"
    by (rule trainable_after_step [OF Suc.prems(1) fc wp])
  obtain b st2 where cg: "check_growth ?st1 = (b, st2)"
    by (cases "check_growth ?st1")
  from trainable_growth [OF t1 cg] Suc.prems(2)
  have t2: "trainable m st2" "layers st2 = ls" by simp_all
  show ?case
  proof (cases b)
    case True
    then show ?thesis using step cg t2 by simp
  next
    case False
    from Suc.IH [OF t2, of "Some c"] obtain cost' st' where
      "train_loop n X y (Some c) st2 = Inr (cost', st')" "trainable m st'" "layers st' = ls"
      "cost' \<noteq> None" by auto
    then show ?thesis using step cg False by simp
  qed
qed

lemma train_ok:
  assumes tr: "trainable m st" and X: "mat (layers st ! 0) m X"
    and y: "length y = m" and m: "0 < m" and n: "0 < num_iters st"
  shows "\<exists>c st'. train st X y = Inr (c, st') \<and> cache st' = [] \<and>
     layers st' = layers st \<and> wf_params (layers st) (parameters st')"
proof -
  have "0 < nat (num_iters st)" using n by simp
  with train_loop_ok [OF X y m tr refl, of "nat (num_iters st)" None] obtain c st1 where
    "train_loop (nat (num_iters st)) X y None st = Inr (Some c, st1)"
    "trainable m st1" "layers st1 = layers st"
    by auto
  then show ?thesis
    by (auto simp: train_def trainable_def)
qed

lemma train_clears_cache:
  "train st X y = Inr (c, st') \<Longrightarrow> cache st' = []"
  unfolding train_def by (auto dest!: bindE_Inr split: prod.splits option.splits)

text \<open>What the loop of \<^verbatim>\<open>train\<close> does to the cost history, and the cost it leaves in \<^verbatim>\<open>cost\<close>.\<close>

lemma check_growth_J_hist: "check_growth st = (b, st') \<Longrightarrow> J_hist st' = J_hist st"
  by (auto dest!: check_growth_frame)

lemma train_loop_Suc:
  assumes "train_step st X y = Inr (c, st1)"
  shows "train_loop (Suc k) X y cost st =
     (if fst (check_growth st1) then Inr (Some c, snd (check_growth st1))
      else train_loop k X y (Some c) (snd (check_growth st1)))"
  by (cases "check_growth st1") (simp add: assms)

lemma train_loop_hist:
  "train_loop n X y cost st = Inr (cost', st') \<Longrightarrow>
     \<exists>cs. J_hist st' = J_hist st @ cs \<and> length cs \<le> n \<and>
       (cs = [] \<longrightarrow> cost' = cost) \<and> (cs \<noteq> [] \<longrightarrow> cost' = Some (last cs))"
proof (induction n arbitrary: st cost)
  case 0
  then show ?case by simp
next
  case (Suc n)
  from Suc.prems obtain c st1 where
    step: "train_step st X y = Inr (c, st1)"
    by (auto dest!: bindE_Inr)
  obtain b st2 where cg: "check_growth st1 = (b, st2)"
    by (cases "check_growth st1")
  have J2: "J_hist st2 = J_hist st @ [c]"
    using check_growth_J_hist [OF cg] train_step_frame(1) [OF step] by simp
  show ?case
  proof (cases b)
    case True
    then have "cost' = Some c" "st' = st2"
      using Suc.prems train_loop_Suc [OF step, where k = n and cost = cost] cg by simp_all
    then show ?thesis using J2 by (intro exI [of _ "[c]"]) simp
  next
    case False
    then have "train_loop n X y (Some c) st2 = Inr (cost', st')"
      using Suc.prems train_loop_Suc [OF step, where k = n and cost = cost] cg by simp
    from Suc.IH [OF this] obtain cs where
      cs: "J_hist st' = J_hist st2 @ cs" "length cs \<le> n"
        "cs = [] \<longrightarrow> cost' = Some c" "cs \<noteq> [] \<longrightarrow> cost' = Some (last cs)"
      by blast
    show ?thesis
      using cs J2 by (intro exI [of _ "c # cs"]) auto
  qed
qed

lemma train_loop_first:
  assumes step: "train_step st X y = Inr (c, st1)"
    and run: "train_loop (Suc k) X y cost st = Inr (cost', st')"
  shows "\<exists>cs. J_hist st' = J_hist st @ c # cs \<and> length cs \<le> k \<and> cost' = Some (last (c # cs))"
proof -
  obtain b st2 where cg: "check_growth st1 = (b, st2)"
    by (cases "check_growth st1")
  have J2: "J_hist st2 = J_hist st @ [c]"
    using check_growth_J_hist [OF cg] train_step_frame(1) [OF step] by simp
  show ?thesis
  proof (cases b)
    case True
    then have "cost' = Some c" "st' = st2"
      using run train_loop_Suc [OF step, where k = k and cost = cost] cg by simp_all
    then show ?thesis using J2 by (intro exI [of _ "[]"]) simp
  next
    case False
    then have "train_loop k X y (Some c) st2 = Inr (cost', st')"
      using run train_loop_Suc [OF step, where k = k and cost = cost] cg by simp
    from train_loop_hist [OF this] obtain cs where
      cs: "J_hist st' = J_hist st2 @ cs" "length cs \<le> k"
        "cs = [] \<longrightarrow> cost' = Some c" "cs \<noteq> [] \<longrightarrow> cost' = Some (last cs)"
      by blast
    show ?thesis
      using cs J2 by (intro exI [of _ cs]) auto
  qed
qed

text \<open>
  A whole run of \<^verbatim>\<open>train\<close> with a positive iteration count, seen from its first iteration:
  the loop returns, the history gains the cost of the first iteration and at most
  \<open>num_iters - 1\<close> more, and the cost reported at the end is the last one recorded.
\<close>

lemma train_run:
  assumes tr: "trainable m st" and X: "mat (layers st ! 0) m X"
    and y: "length y = m" and m: "0 < m" and n: "0 < num_iters st"
    and step: "train_step st X y = Inr (c, st1)"
  shows "\<exists>c' st2 cs. train_loop (nat (num_iters st)) X y None st = Inr (Some c', st2) \<and>
     train st X y = Inr (c', st2\<lparr>cache := []\<rparr>) \<and>
     J_hist st2 = J_hist st @ c # cs \<and> length cs < nat (num_iters st) \<and> c' = last (c # cs)"
proof -
  obtain k where k: "nat (num_iters st) = Suc k"
    using n by (cases "nat (num_iters st)") simp_all
  from train_loop_ok [OF X y m tr refl, of "Suc k" None] obtain cost' st2 where
    run: "train_loop (Suc k) X y None st = Inr (cost', st2)" by blast
  from train_loop_first [OF step run] obtain cs where
    cs: "J_hist st2 = J_hist st @ c # cs" "length cs \<le> k" "cost' = Some (last (c # cs))"
    by blast
  have "train st X y = Inr (last (c # cs), st2\<lparr>cache := []\<rparr>)"
    using run cs(3) by (simp add: train_def k)
  with run cs show ?thesis
    unfolding k by (intro exI [of _ "last (c # cs)"] exI [of _ st2] exI [of _ cs]) simp
qed

lemma train_once:
  assumes step: "train_step st X y = Inr (c, st1)" and n: "num_iters st = 1"
  shows "train st X y = Inr (c, (snd (check_growth st1))\<lparr>cache := []\<rparr>)"
proof -
  have one: "nat (num_iters st) = Suc 0" using n by simp
  have "train_loop (Suc 0) X y None st = Inr (Some c, snd (check_growth st1))"
    unfolding train_loop_Suc [OF step] by simp
  then show ?thesis
    unfolding train_def one by simp
qed

section \<open>Inference without preprocessing\<close>

text \<open>
  Claim C6. \<^verbatim>\<open>predict\<close> with \<^verbatim>\<open>prepare=False\<close> is meant to run the forward pass on \<open>X\<close> as
  given. The program reads \<^verbatim>\<open>X_flatten\<close>, which only the preprocessing branch assigns: for
  every model and every input the call raises UnboundLocalError before any forward pass.
\<close>

theorem predict_unprepared_raises: "predict st X False = Inl UnboundLocalError"
  by (simp add: predict_def)

section \<open>Training with no iteration\<close>

text \<open>
  Claim C10. The constructor stores any iteration count unchecked, and \<^verbatim>\<open>train\<close> on a model
  whose count is zero or negative runs no iteration (the loop returns the object
  unchanged, with \<^verbatim>\<open>cost\<close> unbound) and then raises UnboundLocalError at the final print.
\<close>

theorem train_no_iterations_unbound:
  "n \<le> 0 \<Longrightarrow>
     num_iters (Model lr n ls rnd) = n \<and>
     (num_iters st = n \<longrightarrow>
        train_loop (nat (num_iters st)) X y None st = Inr (None, st) \<and>
        train st X y = Inl UnboundLocalError)"
  by (simp add: train_def Model_def initialize_parameters_def)

theorem train_no_iterations_unbound_witness:
  "(- 1 :: int) \<le> 0 \<and>
   num_iters (Model (1 / 2000) (- 1) [2, 1] (\<lambda>i j k. 0)) = - 1 \<and>
   train (Model (1 / 2000) (- 1) [2, 1] (\<lambda>i j k. 0)) [[1], [2]] [1] = Inl UnboundLocalError"
  using train_no_iterations_unbound [of "- 1" "1 / 2000" "[2, 1]" "\<lambda>i j k. 0"
      "Model (1 / 2000) (- 1) [2, 1] (\<lambda>i j k. 0)" "[[1], [2]]" "[1]"]
  by simp

section \<open>The cost\<close>

lemma ln_eps_pos: "0 < ln (1 + epsilon)"
  by (simp add: epsilon_def)

lemma cost_term_le:
  assumes "t = 0 \<or> t = 1" "0 \<le> q" "q \<le> 1"
  shows "t * ln (q + epsilon) + (1 - t) * ln (1 - q + epsilon) \<le> ln (1 + epsilon)"
  using assms by (auto simp: epsilon_def)

text \<open>
  Claim C4. For a row \<open>y\<close> of labels and a row \<open>p\<close> of predictions of the same length
  \<open>m \<ge> 1\<close>, \<^verbatim>\<open>computeCost\<close> returns the scalar
  \<open>- (1/m) \<Sum>\<^sub>j (y\<^sub>j ln (p\<^sub>j + \<epsilon>) + (1 - y\<^sub>j) ln (1 - p\<^sub>j + \<epsilon>))\<close> with \<open>\<epsilon> = 10\<^sup>-\<^sup>5\<close>, and raises nothing.
\<close>

theorem computeCost_formula:
  assumes "length y = m" and "length p = m" and "1 \<le> m"
  shows "computeCost y [p] =
     Inr (- (1 / real m) *
        (\<Sum>j<m. y ! j * ln (p ! j + 1 / 100000) + (1 - y ! j) * ln (1 - p ! j + 1 / 100000)))"
proof -
  have "length p = length y" and "0 < length y"
    using assms by simp_all
  from computeCost_row [OF this] show ?thesis
    using assms(1) by (simp add: epsilon_def)
qed

theorem computeCost_formula_witness:
  "length [1, 0 :: real] = 2 \<and> length [1 / 2, 1 / 4 :: real] = 2 \<and> (1 :: nat) \<le> 2 \<and>
   computeCost [1, 0] [[1 / 2, 1 / 4]] =
     Inr (- (1 / 2) * (ln (1 / 2 + 1 / 100000) + ln (1 - 1 / 4 + 1 / 100000)))"
  using computeCost_formula [of "[1, 0]" 2 "[1 / 2, 1 / 4]"]
  by (simp add: lessThan_Suc numeral_2_eq_2)

text \<open>
  Claim C5 as stated fails: with the label 1 predicted as exactly 1 the cost is
  \<open>- ln (1 + \<epsilon>)\<close>, which is negative.
\<close>

theorem computeCost_negative_counterexample:
  "set [1 :: real] \<subseteq> {0, 1} \<and> 0 \<le> (1 :: real) \<and> (1 :: real) \<le> 1 \<and>
   computeCost [1] [[1]] = Inr (- ln (1 + epsilon)) \<and> - ln (1 + epsilon) < 0"
  using computeCost_row [of "[1]" "[1]"] ln_eps_pos by simp

text \<open>
  Claim C5, amended. For labels in \<open>{0, 1}\<close> and predictions in \<open>[0, 1]\<close> (same length
  \<open>m \<ge> 1\<close>) the cost is at least \<open>- ln (1 + \<epsilon>)\<close>, a bound slightly below zero, and it is
  exactly \<open>- ln (1 + \<epsilon>)\<close> when the predictions equal the labels.
\<close>

theorem computeCost_lower_bound:
  assumes "set y \<subseteq> {0, 1}" "\<forall>t \<in> set p. 0 \<le> t \<and> t \<le> 1"
    and len: "length p = length y" "0 < length y"
  shows "\<exists>c. computeCost y [p] = Inr c \<and> - ln (1 + epsilon) \<le> c \<and>
           (p = y \<longrightarrow> c = - ln (1 + epsilon))"
proof -
  let ?m = "length y"
  let ?t = "\<lambda>j. y ! j * ln (p ! j + epsilon) + (1 - y ! j) * ln (1 - p ! j + epsilon)"
  let ?c = "- (1 / real ?m) * (\<Sum>j<?m. ?t j)"
  have run: "computeCost y [p] = Inr ?c"
    by (rule computeCost_row [OF len])
  have yj: "y ! j = 0 \<or> y ! j = 1" if "j < ?m" for j
    using assms(1) nth_mem [OF that] by auto
  have pj: "0 \<le> p ! j \<and> p ! j \<le> 1" if "j < ?m" for j
    using assms(2) nth_mem [of j p] that len by auto
  have "(\<Sum>j<?m. ?t j) \<le> (\<Sum>j<?m. ln (1 + epsilon))"
    by (rule sum_mono) (use yj pj cost_term_le in auto)
  then have "(\<Sum>j<?m. ?t j) \<le> real ?m * ln (1 + epsilon)" by simp
  then have lb: "- ln (1 + epsilon) \<le> ?c"
    using len(2) by (simp add: field_simps)
  have eq: "?c = - ln (1 + epsilon)" if "p = y"
  proof -
    have "?t j = ln (1 + epsilon)" if "j < ?m" for j
      using yj [OF that] \<open>p = y\<close> by (auto simp: add.commute)
    then have "(\<Sum>j<?m. ?t j) = real ?m * ln (1 + epsilon)" by simp
    then show ?thesis using len(2) by simp
  qed
  show ?thesis using run lb eq by blast
qed

theorem computeCost_lower_bound_witness:
  "set [1, 0 :: real] \<subseteq> {0, 1} \<and> list_all (\<lambda>t. 0 \<le> t \<and> t \<le> 1) [1, 0 :: real] \<and>
   (\<exists>c. computeCost [1, 0] [[1, 0]] = Inr c \<and> - ln (1 + epsilon) \<le> c \<and> c = - ln (1 + epsilon))"
  using computeCost_lower_bound [of "[1, 0]" "[1, 0]"] by simp

section \<open>The gradient at the output layer\<close>

lemma expit_small: "expit (- ln 99999) = 1 / 100000"
  using expit_neg_ln [of 99999] by simp

lemma dZ_label_one:
  fixes a e :: real
  assumes "0 \<le> a" "0 < e"
  shows "(- (1 / (a + e)) + (1 - 1) / (1 - a + e)) * (a * (1 - a)) = (a - 1) * (a / (a + e))"
proof -
  have "a + e \<noteq> 0" using assms by simp
  then show ?thesis by (simp add: field_simps)
qed

lemma dZ_label_zero:
  fixes a e :: real
  assumes "a \<le> 1" "0 < e"
  shows "(- (0 / (a + e)) + (1 - 0) / (1 - a + e)) * (a * (1 - a)) = (a - 0) * ((1 - a) / (1 - a + e))"
proof -
  have "1 - a + e \<noteq> 0" using assms by simp
  then show ?thesis by (simp add: field_simps)
qed

text \<open>
  Claim C2 as stated fails. At the pre-activation \<open>- ln 99999\<close> the cached activation is
  \<open>10\<^sup>-\<^sup>5\<close>; with the label 1 the program's gradient is \<open>-0.499995\<close>, while \<open>A - y\<close> is
  \<open>-0.99999\<close>: they differ by half the gradient, far beyond rounding.
\<close>

theorem output_dZ_counterexample:
  "sigmoid [[- ln 99999]] = [[1 / 100000]] \<and> set [1 :: real] \<subseteq> {0, 1} \<and>
   output_dZ [1] (Rec [[1 / 100000]] (Some [[- ln 99999]])) = Inr [[- (99999 / 200000)]] \<and>
   bcast (-) [[1 / 100000]] [[1]] 1 1 = [[- (99999 / 100000)]] \<and>
   (49 / 100 :: real) < \<bar>- (99999 / 200000) - (1 / 100000 - 1)\<bar>"
  by (simp add: sigmoid_def dsigmoid_def smap_def expit_small output_dZ_def broadcast2_def
        nrows_def ncols_def bcast_def get_Z_def epsilon_def)

text \<open>
  Claim C2, amended. For a cached activation \<open>A = sigmoid Z\<close> and labels in \<open>{0, 1}\<close>, the
  gradient of lines 122 and 123 is \<open>A - y\<close> scaled, entry by entry, by \<open>A / (A + \<epsilon>)\<close>
  where the label is 1 and by \<open>(1 - A) / (1 - A + \<epsilon>)\<close> where it is 0: the \<open>\<epsilon>\<close> of the two
  divisions does not cancel, so the gradient equals \<open>A - y\<close> only up to that factor.
\<close>

theorem output_dZ_scaled:
  assumes Z: "mat n m Z" and y: "length y = m" and n: "0 < n" and y01: "set y \<subseteq> {0, 1}"
  shows "\<exists>dZ. output_dZ y (Rec (sigmoid Z) (Some Z)) = Inr dZ \<and> mat n m dZ \<and>
     (\<forall>i<n. \<forall>j<m. dZ ! i ! j =
        (sigmoid Z ! i ! j - y ! j) *
        (if y ! j = 1 then sigmoid Z ! i ! j / (sigmoid Z ! i ! j + epsilon)
         else (1 - sigmoid Z ! i ! j) / (1 - sigmoid Z ! i ! j + epsilon)))"
proof -
  have A: "mat n m (sigmoid Z)" using Z by (simp add: sigmoid_def mat_smap)
  from output_dZ_ok [OF A Z y n] obtain dZ where
    run: "output_dZ y (Rec (sigmoid Z) (Some Z)) = Inr dZ" and shape: "mat n m dZ" and
    ent: "\<And>i j. i < n \<Longrightarrow> j < m \<Longrightarrow> dZ ! i ! j =
        (- (y ! j / (sigmoid Z ! i ! j + epsilon)) + (1 - y ! j) / (1 - sigmoid Z ! i ! j + epsilon)) *
        (expit (Z ! i ! j) * (1 - expit (Z ! i ! j)))"
    by blast
  have "dZ ! i ! j = (sigmoid Z ! i ! j - y ! j) *
        (if y ! j = 1 then sigmoid Z ! i ! j / (sigmoid Z ! i ! j + epsilon)
         else (1 - sigmoid Z ! i ! j) / (1 - sigmoid Z ! i ! j + epsilon))"
    if ij: "i < n" "j < m" for i j
  proof -
    have a: "sigmoid Z ! i ! j = expit (Z ! i ! j)"
      using smap_nth [OF Z ij] by (simp add: sigmoid_def)
    have "y ! j \<in> set y"
      using ij y by simp
    then have yj: "y ! j = 0 \<or> y ! j = 1"
      using y01 by auto
    have r: "0 \<le> expit (Z ! i ! j)" "expit (Z ! i ! j) \<le> 1"
      using expit_bounds by simp_all
    have e: "0 < epsilon" by (simp add: epsilon_def)
    from yj show ?thesis
    proof
      assume "y ! j = 0"
      then show ?thesis
        using dZ_label_zero [OF r(2) e] unfolding ent [OF ij] a by simp
    next
      assume "y ! j = 1"
      then show ?thesis
        using dZ_label_one [OF r(1) e] unfolding ent [OF ij] a by simp
    qed
  qed
  then show ?thesis using run shape by blast
qed

theorem output_dZ_scaled_witness:
  "mat 1 1 [[- ln 99999]] \<and> length [1 :: real] = 1 \<and> set [1 :: real] \<subseteq> {0, 1} \<and>
   (\<exists>dZ. output_dZ [1] (Rec (sigmoid [[- ln 99999]]) (Some [[- ln 99999]])) = Inr dZ \<and>
      dZ ! 0 ! 0 = (sigmoid [[- ln 99999]] ! 0 ! 0 - 1) *
         (sigmoid [[- ln 99999]] ! 0 ! 0 / (sigmoid [[- ln 99999]] ! 0 ! 0 + epsilon)))"
  using output_dZ_scaled [of 1 1 "[[- ln 99999]]" "[1]"]
  by (auto simp: mat_def)

section \<open>The cache across forward passes\<close>

lemma unit_model_eq:
  "unit_model = \<lparr>learning_rate = 1 / 2000, num_iters = 2000, layers = [1, 1], cache = [],
     parameters = [(W 1, [[1 / 10]]), (B 1, [[0]])], growth_rate = None, J_hist = []\<rparr>"
  by (simp add: unit_model_def Model_def initialize_parameters_def randn_def zeros_def smap_def)

text \<open>
  Claim C7. After every forward pass entry 0 of the cache should hold the input of that
  pass. On a freshly constructed model the first pass, over \<open>[[0]]\<close>, stores its input; the
  second pass, over \<open>[[1]]\<close>, finds the cache non-empty, keeps entry 0 and only replaces the
  layer entries: entry 0 still holds \<open>[[0]]\<close>, the input of the first pass.
\<close>

theorem feed_forward_keeps_first_input:
  "feed_forward unit_model [[0]] =
     Inr ([[1 / 2]], unit_model\<lparr>cache := [Rec [[0]] None, Rec [[1 / 2]] (Some [[0]])]\<rparr>) \<and>
   feed_forward (unit_model\<lparr>cache := [Rec [[0]] None, Rec [[1 / 2]] (Some [[0]])]\<rparr>) [[1]] =
     Inr ([[expit (1 / 10)]],
          unit_model\<lparr>cache := [Rec [[0]] None, Rec [[expit (1 / 10)]] (Some [[1 / 10]])]\<rparr>)"
  by (simp add: unit_model_eq feed_forward_def getp_def dot_def matmul_def nrows_def ncols_def
      broadcast2_def bcast_def sigmoid_def smap_def expit_zero bidx_def)

section \<open>The forward pass\<close>

lemma small_model_wf:
  "wf_layers (layers small_model)" "wf_params (layers small_model) (parameters small_model)"
  "last (layers small_model) = 1" "mat (layers small_model ! 0) 3 small_X"
  "cache small_model = []" "length small_y = 3"
proof -
  show "wf_params (layers small_model) (parameters small_model)"
    unfolding small_model_def Model_fields by (rule init_loop_wf)
qed (simp_all add: small_model_def Model_fields wf_layers_def small_X_def small_y_def mat_def)




section \<open>The shapes of the parameters\<close>

lemma small_model_trainable: "trainable 3 small_model"
  using small_model_wf by (simp add: trainable_def)

lemma warm_model_trainable: "trainable 3 warm_model" "mat (layers warm_model ! 0) 3 small_X"
  using small_model_wf by (simp_all add: trainable_def warm_model_def)

text \<open>
  Claim C8. For any layer specification \<open>ls\<close> the constructor stores exactly
  \<open>length ls - 1\<close> pairs: for every layer \<open>i \<ge> 1\<close> an array \<open>W\<^sub>i\<close> of shape
  \<open>(ls\<^sub>i, ls\<^sub>i\<^sub>-\<^sub>1)\<close> and the all-zero array \<open>b\<^sub>i\<close> of shape \<open>(ls\<^sub>i, 1)\<close>, and a model
  constructed from a well-formed specification is trainable. On a trainable model, with an
  input of \<open>ls\<^sub>0\<close> rows and \<open>m \<ge> 1\<close> columns and \<open>m\<close> labels, an iteration of \<^verbatim>\<open>train\<close> raises
  nothing and leaves parameters of the same shapes, so the next iteration finds the model
  trainable again; a whole run of \<^verbatim>\<open>train\<close> does the same.
\<close>

theorem parameter_shapes_preserved:
  "length (parameters (Model lr n ls rnd)) = 2 * (length ls - 1) \<and>
   (\<forall>i. 1 \<le> i \<and> i < length ls \<longrightarrow>
      (\<exists>Wi. map_of (parameters (Model lr n ls rnd)) (W i) = Some Wi \<and>
            mat (ls ! i) (ls ! (i - 1)) Wi) \<and>
      map_of (parameters (Model lr n ls rnd)) (B i) = Some (zeros (ls ! i) 1)) \<and>
   (wf_layers ls \<longrightarrow> trainable m (Model lr n ls rnd)) \<and>
   (trainable m st \<and> mat (layers st ! 0) m X \<and> length y = m \<and> 0 < m \<longrightarrow>
      (\<exists>c st'. train_step st X y = Inr (c, st') \<and> layers st' = layers st \<and>
         wf_params (layers st) (parameters st') \<and> trainable m st') \<and>
      (0 < num_iters st \<longrightarrow>
         (\<exists>c st'. train st X y = Inr (c, st') \<and> layers st' = layers st \<and>
            wf_params (layers st) (parameters st'))))"
proof (intro conjI allI impI)
  show "length (parameters (Model lr n ls rnd)) = 2 * (length ls - 1)"
    using init_loop_length [of ls rnd "length ls"] by (simp add: Model_fields)
next
  fix i assume "1 \<le> i \<and> i < length ls"
  then show "\<exists>Wi. map_of (parameters (Model lr n ls rnd)) (W i) = Some Wi \<and>
      mat (ls ! i) (ls ! (i - 1)) Wi"
    by (simp add: Model_fields init_loop_W mat_smap mat_randn)
next
  fix i assume "1 \<le> i \<and> i < length ls"
  then show "map_of (parameters (Model lr n ls rnd)) (B i) = Some (zeros (ls ! i) 1)"
    by (simp add: Model_fields init_loop_B)
next
  assume "wf_layers ls"
  then show "trainable m (Model lr n ls rnd)"
    using init_loop_wf [of ls rnd] by (simp add: trainable_def Model_fields)
next
  assume h: "trainable m st \<and> mat (layers st ! 0) m X \<and> length y = m \<and> 0 < m"
  then have tr: "trainable m st" and X: "mat (layers st ! 0) m X"
    and y: "length y = m" and m: "0 < m" by simp_all
  from train_step_ok [OF tr X y m] obtain c1 c ps' where
    fc: "filled_cache (layers st) m c1" and wp: "wf_params (layers st) ps'" and
    step: "train_step st X y =
        Inr (c, st\<lparr>cache := c1, parameters := ps', J_hist := J_hist st @ [c]\<rparr>)"
    by blast
  from trainable_after_step [OF tr fc wp, of "J_hist st @ [c]"] wp step
  show "\<exists>c st'. train_step st X y = Inr (c, st') \<and> layers st' = layers st \<and>
      wf_params (layers st) (parameters st') \<and> trainable m st'"
    by auto
  assume "0 < num_iters st"
  from train_ok [OF tr X y m this]
  show "\<exists>c st'. train st X y = Inr (c, st') \<and> layers st' = layers st \<and>
      wf_params (layers st) (parameters st')"
    by blast
qed

theorem parameter_shapes_preserved_witness:
  "wf_layers [2, 2, 1] \<and> trainable 3 (Model (1 / 2000) 2000 [2, 2, 1] (\<lambda>i j k. 1)) \<and>
   trainable 3 small_model \<and> mat (layers small_model ! 0) 3 small_X \<and>
   length small_y = 3 \<and> (0 :: nat) < 3 \<and> 0 < num_iters small_model \<and>
   map_of (parameters small_model) (B 2) = Some (zeros 1 1) \<and>
   (\<exists>c st'. train_step small_model small_X small_y = Inr (c, st') \<and>
      wf_params (layers small_model) (parameters st')) \<and>
   (\<exists>c st'. train small_model small_X small_y = Inr (c, st') \<and>
      wf_params (layers small_model) (parameters st'))"
proof -
  have wl: "wf_layers [2, 2, 1]" by (simp add: wf_layers_def)
  have n: "0 < num_iters small_model" by (simp add: small_model_def Model_fields)
  note t = parameter_shapes_preserved [of "1 / 2000" 2000 "[2, 2, 1]" "\<lambda>i j k. 1" 3
      small_model small_X small_y]
  have b: "map_of (parameters small_model) (B 2) = Some (zeros 1 1)"
    using t unfolding small_model_def by simp
  have tm: "trainable 3 (Model (1 / 2000) 2000 [2, 2, 1] (\<lambda>i j k. 1))"
    using t wl by blast
  have h: "trainable 3 small_model \<and> mat (layers small_model ! 0) 3 small_X \<and>
      length small_y = 3 \<and> (0 :: nat) < 3"
    using small_model_trainable small_model_wf by simp
  with t n have "(\<exists>c st'. train_step small_model small_X small_y = Inr (c, st') \<and>
      wf_params (layers small_model) (parameters st')) \<and>
   (\<exists>c st'. train small_model small_X small_y = Inr (c, st') \<and>
      wf_params (layers small_model) (parameters st'))"
    by blast
  with wl tm h n b show ?thesis by blast
qed

section \<open>The training iteration\<close>

text \<open>
  Claim C9. On a trainable model an iteration of \<^verbatim>\<open>train\<close> runs the forward pass on the
  current parameters, which changes the cache only; computes the cost of its predictions;
  runs the backward pass on the cache the forward pass left and the same parameters;
  replaces for every layer \<open>W\<close> by \<open>W - lr \<cdot> dW\<close> and \<open>b\<close> by \<open>b - lr \<cdot> db\<close> entry by entry; and
  appends that one cost to the history, changing nothing else. The loop of \<^verbatim>\<open>train\<close> is
  that iteration followed by the growth check, which either leaves the loop or goes on
  with the remaining iterations. With a positive iteration count \<^verbatim>\<open>train\<close> returns: the
  history has gained the cost of this first iteration and fewer than \<open>num_iters\<close> further
  costs, the cost it reports is the last one recorded, and the object it leaves is the one
  the loop left with the cache emptied. Whenever \<^verbatim>\<open>train\<close> returns, the cache is empty.
\<close>

theorem train_iteration_order:
  assumes tr: "trainable m st" and X: "mat (layers st ! 0) m X"
    and y: "length y = m" and m: "0 < m"
  shows "\<exists>pred st1 c g st'.
     feed_forward st X = Inr (pred, st1) \<and> st1 = st\<lparr>cache := cache st1\<rparr> \<and>
     parameters st1 = parameters st \<and>
     computeCost y pred = Inr c \<and>
     back_propagate st1 X y = Inr g \<and>
     train_step st X y = Inr (c, st') \<and>
     (\<forall>j. 1 \<le> j \<and> j < length (layers st) \<longrightarrow>
        descended (layers st) (learning_rate st) g (parameters st) (parameters st') j) \<and>
     J_hist st' = J_hist st @ [c] \<and>
     st' = st1\<lparr>parameters := parameters st', J_hist := J_hist st @ [c]\<rparr> \<and>
     (\<forall>k cost. train_loop (Suc k) X y cost st =
        (if fst (check_growth st') then Inr (Some c, snd (check_growth st'))
         else train_loop k X y (Some c) (snd (check_growth st')))) \<and>
     (num_iters st = 1 \<longrightarrow>
        train st X y = Inr (c, (snd (check_growth st'))\<lparr>cache := []\<rparr>)) \<and>
     (0 < num_iters st \<longrightarrow>
        (\<exists>c' st2 cs. train_loop (nat (num_iters st)) X y None st = Inr (Some c', st2) \<and>
           train st X y = Inr (c', st2\<lparr>cache := []\<rparr>) \<and>
           J_hist st2 = J_hist st @ c # cs \<and> length cs < nat (num_iters st) \<and>
           c' = last (c # cs))) \<and>
     (0 < num_iters st \<longrightarrow> (\<exists>c' st''. train st X y = Inr (c', st'') \<and> cache st'' = [])) \<and>
     (\<forall>c' st''. train st X y = Inr (c', st'') \<longrightarrow> cache st'' = [])"
proof -
  from train_step_ok [OF tr X y m] obtain pred c1 c g ps' where
    s: "feed_forward st X = Inr (pred, st\<lparr>cache := c1\<rparr>)" "computeCost y pred = Inr c"
      "back_propagate (st\<lparr>cache := c1\<rparr>) X y = Inr g"
      "\<forall>j. 1 \<le> j \<and> j < length (layers st) \<longrightarrow>
         descended (layers st) (learning_rate st) g (parameters st) ps' j"
      "train_step st X y =
         Inr (c, st\<lparr>cache := c1, parameters := ps', J_hist := J_hist st @ [c]\<rparr>)"
    by blast
  let ?st1 = "st\<lparr>cache := c1\<rparr>"
  let ?st' = "st\<lparr>cache := c1, parameters := ps', J_hist := J_hist st @ [c]\<rparr>"
  have loop: "\<forall>k cost. train_loop (Suc k) X y cost st =
        (if fst (check_growth ?st') then Inr (Some c, snd (check_growth ?st'))
         else train_loop k X y (Some c) (snd (check_growth ?st')))"
    using train_loop_Suc [OF s(5)] by blast
  have once: "num_iters st = 1 \<longrightarrow>
        train st X y = Inr (c, (snd (check_growth ?st'))\<lparr>cache := []\<rparr>)"
    using train_once [OF s(5)] by blast
  have run: "0 < num_iters st \<longrightarrow>
        (\<exists>c' st2 cs. train_loop (nat (num_iters st)) X y None st = Inr (Some c', st2) \<and>
           train st X y = Inr (c', st2\<lparr>cache := []\<rparr>) \<and>
           J_hist st2 = J_hist st @ c # cs \<and> length cs < nat (num_iters st) \<and>
           c' = last (c # cs))"
    using train_run [OF tr X y m _ s(5)] by blast
  have ret: "0 < num_iters st \<longrightarrow> (\<exists>c' st''. train st X y = Inr (c', st'') \<and> cache st'' = [])"
    using train_ok [OF tr X y m] by blast
  have clr: "\<forall>c' st''. train st X y = Inr (c', st'') \<longrightarrow> cache st'' = []"
    using train_clears_cache by blast
  show ?thesis
  proof (intro exI conjI)
    show "feed_forward st X = Inr (pred, ?st1)" by (rule s(1))
    show "?st1 = st\<lparr>cache := cache ?st1\<rparr>" by simp
    show "parameters ?st1 = parameters st" by simp
    show "computeCost y pred = Inr c" by (rule s(2))
    show "back_propagate ?st1 X y = Inr g" by (rule s(3))
    show "train_step st X y = Inr (c, ?st')" by (rule s(5))
    show "\<forall>j. 1 \<le> j \<and> j < length (layers st) \<longrightarrow>
        descended (layers st) (learning_rate st) g (parameters st) (parameters ?st') j"
      using s(4) by simp
    show "J_hist ?st' = J_hist st @ [c]" by simp
    show "?st' = ?st1\<lparr>parameters := parameters ?st', J_hist := J_hist st @ [c]\<rparr>" by simp
  qed (rule loop once run ret clr)+
qed

theorem train_iteration_order_witness:
  "trainable 3 small_model \<and> mat (layers small_model ! 0) 3 small_X \<and>
   length small_y = 3 \<and> (0 :: nat) < 3 \<and> 0 < num_iters small_model \<and>
   (\<exists>pred st1 c g st'.
      feed_forward small_model small_X = Inr (pred, st1) \<and>
      computeCost small_y pred = Inr c \<and>
      back_propagate st1 small_X small_y = Inr g \<and>
      train_step small_model small_X small_y = Inr (c, st') \<and>
      descended (layers small_model) (learning_rate small_model) g
        (parameters small_model) (parameters st') 1 \<and>
      descended (layers small_model) (learning_rate small_model) g
        (parameters small_model) (parameters st') 2 \<and>
      J_hist st' = [c] \<and>
      (\<exists>c' st2 cs. train small_model small_X small_y = Inr (c', st2\<lparr>cache := []\<rparr>) \<and>
         J_hist st2 = c # cs \<and> length cs < 2000 \<and> c' = last (c # cs)))"
proof -
  have n: "0 < num_iters small_model" "length (layers small_model) = 3"
    "J_hist small_model = []" "nat (num_iters small_model) = 2000"
    by (simp_all add: small_model_def Model_fields)
  have p: "(0 :: nat) < 3" by simp
  from train_iteration_order [OF small_model_trainable small_model_wf(4,6) p]
  obtain pred st1 c g st' where
    r: "feed_forward small_model small_X = Inr (pred, st1)"
      "computeCost small_y pred = Inr c"
      "back_propagate st1 small_X small_y = Inr g"
      "train_step small_model small_X small_y = Inr (c, st')"
      "\<forall>j. 1 \<le> j \<and> j < length (layers small_model) \<longrightarrow>
         descended (layers small_model) (learning_rate small_model) g
           (parameters small_model) (parameters st') j"
      "J_hist st' = J_hist small_model @ [c]"
      "0 < num_iters small_model \<longrightarrow>
        (\<exists>c' st2 cs. train_loop (nat (num_iters small_model)) small_X small_y None small_model =
             Inr (Some c', st2) \<and>
           train small_model small_X small_y = Inr (c', st2\<lparr>cache := []\<rparr>) \<and>
           J_hist st2 = J_hist small_model @ c # cs \<and>
           length cs < nat (num_iters small_model) \<and> c' = last (c # cs))"
    by blast
  have d: "descended (layers small_model) (learning_rate small_model) g
        (parameters small_model) (parameters st') 1"
      "descended (layers small_model) (learning_rate small_model) g
        (parameters small_model) (parameters st') 2"
    using r(5) n(2) by simp_all
  from r(7) n(1) obtain c' st2 cs where
    t: "train small_model small_X small_y = Inr (c', st2\<lparr>cache := []\<rparr>)"
      "J_hist st2 = J_hist small_model @ c # cs" "length cs < nat (num_iters small_model)"
      "c' = last (c # cs)"
    by blast
  have t': "\<exists>c' st2 cs. train small_model small_X small_y = Inr (c', st2\<lparr>cache := []\<rparr>) \<and>
         J_hist st2 = c # cs \<and> length cs < 2000 \<and> c' = last (c # cs)"
    using t unfolding n(3,4) by (intro exI [of _ c'] exI [of _ st2] exI [of _ cs]) simp
  have j: "J_hist st' = [c]" using r(6) n(3) by simp
  have e: "\<exists>pred st1 c g st'.
      feed_forward small_model small_X = Inr (pred, st1) \<and>
      computeCost small_y pred = Inr c \<and>
      back_propagate st1 small_X small_y = Inr g \<and>
      train_step small_model small_X small_y = Inr (c, st') \<and>
      descended (layers small_model) (learning_rate small_model) g
        (parameters small_model) (parameters st') 1 \<and>
      descended (layers small_model) (learning_rate small_model) g
        (parameters small_model) (parameters st') 2 \<and>
      J_hist st' = [c] \<and>
      (\<exists>c' st2 cs. train small_model small_X small_y = Inr (c', st2\<lparr>cache := []\<rparr>) \<and>
         J_hist st2 = c # cs \<and> length cs < 2000 \<and> c' = last (c # cs))"
  proof (rule exI [of _ pred], rule exI [of _ st1], rule exI [of _ c], rule exI [of _ g],
      rule exI [of _ st'])
    show "feed_forward small_model small_X = Inr (pred, st1) \<and>
      computeCost small_y pred = Inr c \<and>
      back_propagate st1 small_X small_y = Inr g \<and>
      train_step small_model small_X small_y = Inr (c, st') \<and>
      descended (layers small_model) (learning_rate small_model) g
        (parameters small_model) (parameters st') 1 \<and>
      descended (layers small_model) (learning_rate small_model) g
        (parameters small_model) (parameters st') 2 \<and>
      J_hist st' = [c] \<and>
      (\<exists>c' st2 cs. train small_model small_X small_y = Inr (c', st2\<lparr>cache := []\<rparr>) \<and>
         J_hist st2 = c # cs \<and> length cs < 2000 \<and> c' = last (c # cs))"
      using r(1-4) d j t' by (intro conjI)
  qed
  show ?thesis
    using small_model_trainable small_model_wf(4,6) p n(1) e by (intro conjI)
qed

section \<open>Early stopping\<close>

text \<open>
  Claim C1 as stated fails. After the third iteration has recorded its cost the history
  \<open>[1.0, 0.5, 0.49]\<close> has three entries and the growth rate of the claim is about 0.02,
  below 0.25; but the guard of line 157 is \<^verbatim>\<open>len(self.J_hist) > 3\<close>, so no growth rate is
  computed and the loop is not left.
\<close>

theorem early_stopping_counterexample:
  "J_hist warm_model = [1, 1 / 2, 49 / 100] \<and> 3 \<le> length (J_hist warm_model) \<and>
   (J_hist warm_model ! 2 - J_hist warm_model ! 1) /
     (J_hist warm_model ! 1 - J_hist warm_model ! 0 + epsilon) < 1 / 4 \<and>
   check_growth warm_model = (False, warm_model) \<and> growth_rate warm_model = None"
  by (simp add: warm_model_def small_model_def Model_fields check_growth_def epsilon_def)

text \<open>
  Claim C1, amended. An iteration appends its cost \<open>c\<close> to the history. When fewer than
  three costs were recorded before it (at most three with \<open>c\<close>), nothing is checked and the
  loop goes on. When at least three were recorded before it (more than three with \<open>c\<close>),
  the growth rate \<open>(J[-1] - J[-2]) / (J[-2] - J[-3] + \<epsilon>)\<close> of the extended history is stored
  and the loop is left exactly when it is below 0.25; a zero divisor gives an infinity or
  not-a-number, as numpy does, and otherwise the comparison is that of the real quotient.
\<close>

theorem early_stopping_after_four_costs:
  assumes step: "train_step st X y = Inr (c, st1)"
  shows "J_hist st1 = J_hist st @ [c] \<and>
    (length (J_hist st) < 3 \<longrightarrow>
       train_loop (Suc k) X y cost st = train_loop k X y (Some c) st1) \<and>
    (3 \<le> length (J_hist st) \<longrightarrow>
       train_loop (Suc k) X y cost st =
         (if np_less (np_divide (c - last (J_hist st))
                 (last (J_hist st) - J_hist st ! (length (J_hist st) - 2) + epsilon)) (1 / 4)
          then Inr (Some c, st1\<lparr>growth_rate := Some (np_divide (c - last (J_hist st))
                 (last (J_hist st) - J_hist st ! (length (J_hist st) - 2) + epsilon))\<rparr>)
          else train_loop k X y (Some c) (st1\<lparr>growth_rate := Some (np_divide (c - last (J_hist st))
                 (last (J_hist st) - J_hist st ! (length (J_hist st) - 2) + epsilon))\<rparr>)) \<and>
       (last (J_hist st) - J_hist st ! (length (J_hist st) - 2) + epsilon \<noteq> 0 \<longrightarrow>
          np_less (np_divide (c - last (J_hist st))
                 (last (J_hist st) - J_hist st ! (length (J_hist st) - 2) + epsilon)) (1 / 4) =
          ((c - last (J_hist st)) /
             (last (J_hist st) - J_hist st ! (length (J_hist st) - 2) + epsilon) < 1 / 4)))"
proof (intro conjI impI)
  let ?J = "J_hist st"
  show J: "J_hist st1 = ?J @ [c]"
    by (rule train_step_frame(1) [OF step])
  show "train_loop (Suc k) X y cost st = train_loop k X y (Some c) st1" if "length ?J < 3"
    using that by (simp add: step check_growth_def J)
  assume len: "3 \<le> length ?J"
  then have ne: "?J \<noteq> []" by auto
  have i1: "(?J @ [c]) ! (Suc (length ?J) - 1) = c"
    by simp
  have i2: "(?J @ [c]) ! (Suc (length ?J) - 2) = last ?J"
    using len ne by (simp add: nth_append last_conv_nth)
  have "Suc (length ?J) - 3 = length ?J - 2" and "length ?J - 2 < length ?J"
    using len by arith+
  then have i3: "(?J @ [c]) ! (Suc (length ?J) - 3) = ?J ! (length ?J - 2)"
    by (simp only: nth_append if_True)
  have cg: "check_growth st1 =
      (np_less (np_divide (c - last ?J) (last ?J - ?J ! (length ?J - 2) + epsilon)) (1 / 4),
       st1\<lparr>growth_rate := Some (np_divide (c - last ?J) (last ?J - ?J ! (length ?J - 2) + epsilon))\<rparr>)"
    using len i1 i2 i3 by (simp add: check_growth_def J Let_def)
  show "train_loop (Suc k) X y cost st =
         (if np_less (np_divide (c - last ?J) (last ?J - ?J ! (length ?J - 2) + epsilon)) (1 / 4)
          then Inr (Some c, st1\<lparr>growth_rate := Some (np_divide (c - last ?J)
                 (last ?J - ?J ! (length ?J - 2) + epsilon))\<rparr>)
          else train_loop k X y (Some c) (st1\<lparr>growth_rate := Some (np_divide (c - last ?J)
                 (last ?J - ?J ! (length ?J - 2) + epsilon))\<rparr>))"
    by (simp add: step cg)
  show "np_less (np_divide (c - last ?J) (last ?J - ?J ! (length ?J - 2) + epsilon)) (1 / 4) =
          ((c - last ?J) / (last ?J - ?J ! (length ?J - 2) + epsilon) < 1 / 4)"
    if "last ?J - ?J ! (length ?J - 2) + epsilon \<noteq> 0"
    using that by (simp add: np_divide_def)
qed

theorem early_stopping_after_four_costs_witness:
  "\<exists>c st1. train_step warm_model small_X small_y = Inr (c, st1) \<and>
     J_hist st1 = [1, 1 / 2, 49 / 100, c] \<and>
     train_loop (Suc 0) small_X small_y None warm_model =
       (if np_less (np_divide (c - 49 / 100) (49 / 100 - 1 / 2 + epsilon)) (1 / 4)
        then Inr (Some c, st1\<lparr>growth_rate :=
               Some (np_divide (c - 49 / 100) (49 / 100 - 1 / 2 + epsilon))\<rparr>)
        else train_loop 0 small_X small_y (Some c) (st1\<lparr>growth_rate :=
               Some (np_divide (c - 49 / 100) (49 / 100 - 1 / 2 + epsilon))\<rparr>))"
proof -
  have y: "length small_y = 3" by (rule small_model_wf(6))
  from train_step_ok [OF warm_model_trainable y] obtain c st1 where
    step: "train_step warm_model small_X small_y = Inr (c, st1)" by auto
  have J: "J_hist warm_model = [1, 1 / 2, 49 / 100]"
    by (simp add: warm_model_def)
  from early_stopping_after_four_costs [OF step, of 0 None]
  show ?thesis
    using step unfolding J by (intro exI [of _ c] exI [of _ st1]) simp
qed

end
